theory Spec2Isabelle
  imports Complex_Main "HOL-Library.Sublist"
begin

section \<open>Path names (the functions of os.path the program calls)\<close>

text \<open>
  Python strings are modelled as \<open>string\<close>. The program runs on POSIX, where
  \<open>os.path\<close> is \<open>posixpath\<close>; the definitions below follow that module.
  What depends on the process (current directory, the HOME variable, the password
  database) is read from an \<open>os_env\<close> record.
\<close>

type_synonym path = string

record os_env =
  cwd :: path
  HOME :: "string option"
  pw_uid_dir :: "string option"
  pw_nam_dir :: "string \<rightharpoonup> string"

definition sep :: char where
  "sep = CHR ''/''"

text \<open>\<open>p[:p.rfind('/') + 1]\<close> and \<open>p[p.rfind('/') + 1:]\<close>.\<close>

definition upto_last_sep :: "path \<Rightarrow> path" where
  "upto_last_sep p = rev (dropWhile (\<lambda>c. c \<noteq> sep) (rev p))"

definition after_last_sep :: "path \<Rightarrow> path" where
  "after_last_sep p = rev (takeWhile (\<lambda>c. c \<noteq> sep) (rev p))"

definition rstrip_sep :: "path \<Rightarrow> path" where
  "rstrip_sep p = rev (dropWhile (\<lambda>c. c = sep) (rev p))"

definition basename :: "path \<Rightarrow> path" where
  "basename p = after_last_sep p"

definition dirname :: "path \<Rightarrow> path" where
  "dirname p =
     (let head = upto_last_sep p
      in if head \<noteq> [] \<and> head \<noteq> replicate (length head) sep then rstrip_sep head else head)"

text \<open>\<open>os.path.split\<close>: the pair of \<open>dirname\<close> and \<open>basename\<close>.\<close>

definition path_split :: "path \<Rightarrow> path \<times> path" where
  "path_split p = (dirname p, basename p)"

definition isabs :: "path \<Rightarrow> bool" where
  "isabs p = (case p of [] \<Rightarrow> False | c # _ \<Rightarrow> c = sep)"

text \<open>\<open>join(a, b)\<close> with one component after the first, as every call of the program has.\<close>

definition join :: "path \<Rightarrow> path \<Rightarrow> path" where
  "join a b =
     (if isabs b then b
      else if a = [] \<or> last a = sep then a @ b
      else a @ [sep] @ b)"

text \<open>\<open>path.split('/')\<close>: the pieces between separators, empty pieces included.\<close>

fun split_sep :: "string \<Rightarrow> string list" where
  "split_sep [] = [[]]"
| "split_sep (c # cs) =
     (if c = sep then [] # split_sep cs
      else (case split_sep cs of [] \<Rightarrow> [[c]] | w # ws \<Rightarrow> (c # w) # ws))"

text \<open>\<open>'/'.join(comps)\<close>.\<close>

fun join_sep :: "string list \<Rightarrow> string" where
  "join_sep [] = []"
| "join_sep [w] = w"
| "join_sep (w # ws) = w @ [sep] @ join_sep ws"

text \<open>The number of leading slashes \<open>normpath\<close> keeps: two exactly when the path starts
  with two slashes and not with three, one for any other absolute path.\<close>

definition initial_slashes :: "path \<Rightarrow> nat" where
  "initial_slashes p =
     (if isabs p then
        (if take 2 p = [sep, sep] \<and> take 3 p \<noteq> [sep, sep, sep] then 2 else 1)
      else 0)"

text \<open>One round of the loop of \<open>normpath\<close> over the components.\<close>

definition norm_step :: "nat \<Rightarrow> string list \<Rightarrow> string \<Rightarrow> string list" where
  "norm_step slashes new_comps part =
     (if part = [] \<or> part = ''.'' then new_comps
      else if part \<noteq> ''..'' \<or> (slashes = 0 \<and> new_comps = [])
                \<or> (new_comps \<noteq> [] \<and> last new_comps = ''..'')
        then new_comps @ [part]
      else if new_comps \<noteq> [] then butlast new_comps
      else new_comps)"

definition normpath :: "path \<Rightarrow> path" where
  "normpath p =
     (if p = [] then ''.''
      else
        let slashes = initial_slashes p;
            comps = foldl (norm_step slashes) [] (split_sep p);
            q = replicate slashes sep @ join_sep comps
        in if q = [] then ''.'' else q)"

definition abspath :: "os_env \<Rightarrow> path \<Rightarrow> path" where
  "abspath E p = normpath (if isabs p then p else join (cwd E) p)"

text \<open>\<open>expanduser\<close>: a path that does not start with a tilde is returned as it is;
  \<open>~\<close> alone names the HOME variable (the password entry of the current user when HOME
  is unset), \<open>~name\<close> the password entry of \<open>name\<close>; an unknown user leaves the path
  unchanged.\<close>

definition expanduser :: "os_env \<Rightarrow> path \<Rightarrow> path" where
  "expanduser E p =
     (if take 1 p \<noteq> ''~'' then p
      else
        let name = takeWhile (\<lambda>c. c \<noteq> sep) (drop 1 p);
            rest = dropWhile (\<lambda>c. c \<noteq> sep) (drop 1 p);
            userhome = (if name = [] then (case HOME E of None \<Rightarrow> pw_uid_dir E | Some h \<Rightarrow> Some h)
                        else pw_nam_dir E name)
        in case userhome of
             None \<Rightarrow> p
           | Some h \<Rightarrow> (let r = rstrip_sep h @ rest in if r = [] then [sep] else r))"

text \<open>
  A plain name: an optional leading slash, then components separated by single slashes,
  none of them empty, \<open>.\<close> or \<open>..\<close>. An absolute plain name is what \<open>abspath\<close> returns
  (the root and a doubled leading slash apart).
\<close>

definition proper :: "string \<Rightarrow> bool" where
  "proper c \<longleftrightarrow> c \<noteq> [] \<and> c \<noteq> ''.'' \<and> c \<noteq> ''..''"

definition plain_name :: "path \<Rightarrow> bool" where
  "plain_name p \<longleftrightarrow> (\<forall>c \<in> set (split_sep (if isabs p then tl p else p)). proper c)"

text \<open>No character that the shell reads inside double quotes.\<close>

definition shell_plain :: "string \<Rightarrow> bool" where
  "shell_plain x \<longleftrightarrow> (\<forall>c \<in> set x. c \<notin> {CHR 0x22, CHR ''$'', CHR 0x60, CHR 0x5C})"

section \<open>The file system\<close>

text \<open>
  A file system maps a name to what is there: a file with its content, or a directory.
  Every raise of the library is a value of \<open>error\<close>.

  The operating system resolves a name before it looks: a name that ends in slashes or
  in a component \<open>.\<close> names the directory before them, and is there only when that is a
  directory; the root and the current directory are always there. \<open>canon\<close> removes such
  an ending, and \<open>stat\<close> looks a name up that way. What the model leaves as written:
  a doubled slash or a \<open>.\<close> inside a name, a component \<open>..\<close>, links, and the relation of
  a relative name to the absolute name of the same file; permissions and devices are
  not modelled. On absolute names made of plain components, as \<open>abspath\<close> gives them,
  the name as written is the name resolved.
\<close>

datatype error =
    IOError string
  | FileNotFoundError path
  | FileExistsError path
  | IsADirectoryError path
  | NotADirectoryError path
  | ShutilError string
  | RasterError string

datatype 'c node = File 'c | Dir

type_synonym 'c filesystem = "path \<rightharpoonup> 'c node"

text \<open>On the reversed name: drop the slashes and the \<open>.\<close> components it starts with.\<close>

fun strip_dots :: "string \<Rightarrow> string" where
  "strip_dots [] = []"
| "strip_dots [c] = (if c = sep then [] else [c])"
| "strip_dots (c # d # xs) =
     (if c = sep then strip_dots (d # xs)
      else if c = CHR ''.'' \<and> d = sep then strip_dots xs
      else c # d # xs)"

definition canon :: "path \<Rightarrow> path" where
  "canon p = (let q = rev (strip_dots (rev p)) in if q = [] \<and> p \<noteq> [] then [sep] else q)"

definition stat :: "'c filesystem \<Rightarrow> path \<Rightarrow> 'c node option" where
  "stat fs p =
     (if p = [] then None
      else
        let q = canon p
        in if q = [sep] \<or> q = ''.'' then Some Dir
           else if q = p then fs p
           else (case fs q of Some Dir \<Rightarrow> Some Dir | _ \<Rightarrow> None))"

definition exists :: "'c filesystem \<Rightarrow> path \<Rightarrow> bool" where
  "exists fs p = (stat fs p \<noteq> None)"

definition isdir :: "'c filesystem \<Rightarrow> path \<Rightarrow> bool" where
  "isdir fs p = (case stat fs p of Some Dir \<Rightarrow> True | _ \<Rightarrow> False)"

definition isfile :: "'c filesystem \<Rightarrow> path \<Rightarrow> bool" where
  "isfile fs p = (case stat fs p of Some (File _) \<Rightarrow> True | _ \<Rightarrow> False)"

text \<open>
  \<open>os.mkdir(name)\<close>. Trailing slashes do not count; a name that is there already, the
  root and the current directory included, is refused; so is a name that ends in a
  component \<open>.\<close> or \<open>..\<close>, which can only name what is there or lie under what is not a
  directory; otherwise the parent must be a directory (a name with no parent part lies
  in the current directory).
\<close>

definition mkdir :: "path \<Rightarrow> 'c filesystem \<Rightarrow> 'c filesystem \<times> (error + unit)" where
  "mkdir name fs =
     (let key = rstrip_sep name;
          parent = (if dirname key = [] then Some Dir else stat fs (dirname key))
      in if name = [] then (fs, Inl (FileNotFoundError name))
         else if key = [] \<or> exists fs key then (fs, Inl (FileExistsError name))
         else (case parent of
                 None \<Rightarrow> (fs, Inl (FileNotFoundError name))
               | Some (File _) \<Rightarrow> (fs, Inl (NotADirectoryError name))
               | Some Dir \<Rightarrow>
                   if basename key = ''.'' \<or> basename key = ''..''
                   then (fs, Inl (FileExistsError name))
                   else (fs(key \<mapsto> Dir), Inr ())))"

text \<open>
  \<open>os.makedirs(name, exist_ok=True)\<close>: the missing ancestors first, then the directory
  itself; an existing directory is accepted, an existing file is not.
\<close>

definition head_tail :: "path \<Rightarrow> path \<times> path" where
  "head_tail name =
     (let (head, tail) = path_split name
      in if tail = [] then path_split head else (head, tail))"

text \<open>\<open>try: ... except FileExistsError: pass\<close> around the recursive call.\<close>

definition pass_FileExistsError ::
  "'c filesystem \<times> (error + unit) \<Rightarrow> 'c filesystem \<times> (error + unit)" where
  "pass_FileExistsError res =
     (case snd res of Inl (FileExistsError _) \<Rightarrow> (fst res, Inr ()) | _ \<Rightarrow> res)"

function makedirs :: "path \<Rightarrow> 'c filesystem \<Rightarrow> 'c filesystem \<times> (error + unit)" where
  "makedirs name fs =
     (let head = fst (head_tail name);
          tail = snd (head_tail name);
          descend = (head \<noteq> [] \<and> tail \<noteq> [] \<and> \<not> exists fs head);
          res = (if descend then pass_FileExistsError (makedirs head fs) else (fs, Inr ()))
      in case snd res of
           Inl e \<Rightarrow> res
         | Inr _ \<Rightarrow>
             if descend \<and> tail = ''.'' then res
             else (case mkdir name (fst res) of
                     (fs2, Inl e) \<Rightarrow> if isdir fs2 name then (fs2, Inr ()) else (fs2, Inl e)
                   | (fs2, Inr _) \<Rightarrow> (fs2, Inr ())))"
  by pat_completeness auto
termination
proof (relation "measure (\<lambda>(name, fs). length name)", goal_cases)
  case 1
  show ?case by simp
next
  case (2 name fs head tail)
  have shorter: "length (dirname p) + length (basename p) \<le> length p" for p
  proof -
    have "upto_last_sep p @ after_last_sep p = p"
      unfolding upto_last_sep_def after_last_sep_def
      by (metis rev_append rev_rev_ident takeWhile_dropWhile_id)
    then have "length (upto_last_sep p) + length (after_last_sep p) = length p"
      by (metis length_append)
    moreover have "length (rstrip_sep q) \<le> length q" for q
      unfolding rstrip_sep_def using length_dropWhile_le[of "\<lambda>c. c = sep" "rev q"] by simp
    then have "length (dirname p) \<le> length (upto_last_sep p)"
      by (simp add: dirname_def Let_def)
    ultimately show ?thesis by (simp add: basename_def)
  qed
  have "length (fst (head_tail name)) < length name"
  proof (cases "basename name = []")
    case True
    then have "head_tail name = (dirname (dirname name), basename (dirname name))"
      by (simp add: head_tail_def path_split_def)
    with 2 shorter[of name] shorter[of "dirname name"] show ?thesis
      by (cases "basename (dirname name)") auto
  next
    case False
    then have "head_tail name = (dirname name, basename name)"
      by (simp add: head_tail_def path_split_def)
    with 2 shorter[of name] show ?thesis
      by (cases "basename name") auto
  qed
  with 2 show ?case by simp
qed

declare makedirs.simps [simp del]

text \<open>
  \<open>os.rename(src, dst)\<close>: the source must be there; a file does not replace a directory
  and cannot take a name that ends in a slash or a dot; a directory does not replace a
  file. The parent of the destination is not looked at (the program has made it by
  then), and what lies under a renamed directory is not followed.
\<close>

definition rename :: "path \<Rightarrow> path \<Rightarrow> 'c filesystem \<Rightarrow> 'c filesystem \<times> (error + unit)" where
  "rename src dst fs =
     (case stat fs src of
        None \<Rightarrow> (fs, Inl (FileNotFoundError src))
      | Some n \<Rightarrow>
          if n \<noteq> Dir \<and> isdir fs dst then (fs, Inl (IsADirectoryError dst))
          else if n \<noteq> Dir \<and> canon dst \<noteq> dst then (fs, Inl (NotADirectoryError dst))
          else if n = Dir \<and> isfile fs (canon dst) then (fs, Inl (NotADirectoryError dst))
          else ((fs(canon src := None))(canon dst \<mapsto> n), Inr ()))"

text \<open>
  When \<open>os.rename\<close> raises, \<open>shutil.move\<close> copies the source and removes it instead. The
  model has one device, and wherever its \<open>rename\<close> raises the copy raises as well; this
  is the error of the copy: of \<open>copytree\<close> for a directory, of \<open>copy2\<close> otherwise.
\<close>

definition copy_error :: "path \<Rightarrow> path \<Rightarrow> 'c filesystem \<Rightarrow> error" where
  "copy_error src real_dst fs =
     (case stat fs src of
        None \<Rightarrow> FileNotFoundError src
      | Some Dir \<Rightarrow> FileExistsError real_dst
      | Some (File _) \<Rightarrow> FileNotFoundError real_dst)"

text \<open>
  \<open>shutil.move(src, dst)\<close>: a destination that is a directory receives the source
  under its own base name, and that name must be free; any other destination is the new
  name of the source. The result is the path the source has afterwards (\<open>None\<close> when
  source and destination are the same directory).
\<close>

definition move :: "path \<Rightarrow> path \<Rightarrow> 'c filesystem \<Rightarrow> 'c filesystem \<times> (error + path option)" where
  "move src dst fs =
     (if isdir fs dst \<and> src = dst then
        (case rename src dst fs of (fs', Inl e) \<Rightarrow> (fs', Inl e) | (fs', Inr _) \<Rightarrow> (fs', Inr None))
      else
        let real_dst = (if isdir fs dst then join dst (basename (rstrip_sep src)) else dst)
        in if isdir fs dst \<and> exists fs real_dst
           then (fs, Inl (ShutilError (''Destination path '' @ [CHR 0x27] @ real_dst @ [CHR 0x27]
                                        @ '' already exists'')))
           else (case rename src real_dst fs of
                   (fs', Inl e) \<Rightarrow> (fs', Inl (copy_error src real_dst fs))
                 | (fs', Inr _) \<Rightarrow> (fs', Inr (Some real_dst))))"

section \<open>Rasters (the operations of the raster library the program calls)\<close>

text \<open>
  A raster value is not-a-number or a number. Numbers are reals; the one operation of the
  program that rounds is the division, and the rounding of the floating-point format is
  a parameter \<open>fl\<close> of it. A raster carries its values, its declared missing-value
  marker and its geometry.
\<close>

datatype pixel = NaN | Num real

record 'g raster =
  array :: "pixel list"
  nodata :: "pixel option"
  geometry :: 'g

text \<open>\<open>image == v\<close>: elementwise; not-a-number equals nothing.\<close>

definition rt_eq :: "'g raster \<Rightarrow> real \<Rightarrow> bool list" where
  "rt_eq img v = map (\<lambda>x. x = Num v) (array img)"

text \<open>\<open>rt.where(condition, x, image)\<close> with a scalar \<open>x\<close>. The program sets the
  missing-value marker of the result itself, right after the call.\<close>

definition rt_where :: "bool list \<Rightarrow> pixel \<Rightarrow> 'g raster \<Rightarrow> 'g raster" where
  "rt_where condition x img =
     img\<lparr>array := map (\<lambda>(c, y). if c then x else y) (zip condition (array img))\<rparr>"

text \<open>\<open>image / d\<close>: elementwise, rounded by \<open>fl\<close>; not-a-number stays. The result
  is a raster with the marker and the geometry of the operand, as for \<open>rt.clip\<close> below.\<close>

definition rt_truediv :: "(real \<Rightarrow> real) \<Rightarrow> 'g raster \<Rightarrow> real \<Rightarrow> 'g raster" where
  "rt_truediv fl img d =
     img\<lparr>array := map (\<lambda>x. case x of NaN \<Rightarrow> NaN | Num v \<Rightarrow> Num (fl (v / d))) (array img)\<rparr>"

text \<open>\<open>rt.clip(image, a_min, a_max)\<close>: the smaller of \<open>a_max\<close> and the larger of the value
  and \<open>a_min\<close>; not-a-number stays.\<close>

definition rt_clip :: "'g raster \<Rightarrow> real \<Rightarrow> real \<Rightarrow> 'g raster" where
  "rt_clip img a_min a_max =
     img\<lparr>array := map (\<lambda>x. case x of NaN \<Rightarrow> NaN | Num v \<Rightarrow> Num (min a_max (max v a_min)))
                      (array img)\<rparr>"

section \<open>The outside world and the program state\<close>

text \<open>
  What the program does not decide itself: what the transfer tool leaves at its output
  path (given the URL and what was there before, since \<open>-c\<close> resumes), what the raster
  library reads from whatever is at a path for a geometry and a resampling method, and
  the rounding of the division.
\<close>

record ('c, 'g) tools =
  wget :: "string \<Rightarrow> 'c node option \<Rightarrow> 'c node option"
  raster_open :: "'c node option \<Rightarrow> 'g option \<Rightarrow> string \<Rightarrow> error + 'g raster"
  fl :: "real \<Rightarrow> real"

record SoilGrids =
  working_directory :: path
  source_directory :: path
  resampling :: string

text \<open>Every call that reaches outside the process is recorded, in order.\<close>

datatype 'g event =
    Makedirs path
  | System string
  | Move path path
  | Open path "'g option" string

record ('c, 'g) state =
  this :: SoilGrids
  files :: "'c filesystem"
  trace :: "'g event list"

definition os_makedirs :: "path \<Rightarrow> ('c, 'g) state \<Rightarrow> ('c, 'g) state \<times> (error + unit)" where
  "os_makedirs name s =
     (case makedirs name (files s) of
        (fs', r) \<Rightarrow> (s\<lparr>files := fs', trace := trace s @ [Makedirs name]\<rparr>, r))"

text \<open>
  \<open>os.system(command)\<close> for the one command the program builds. The shell splits the
  command line into the tool and its operands; when neither the output path nor the URL
  holds a character that the shell reads inside double quotes (the double quote, the
  dollar sign, the backquote, the backslash), the operands are the output path and the
  URL as the program wrote them, and that is the case modelled: the tool gets both and
  writes at its output path only. The output path of the program ends in \<open>.download\<close>,
  so it is a name that \<open>canon\<close> leaves as it is.
\<close>

definition os_system :: "('c, 'g) tools \<Rightarrow> string \<Rightarrow> path \<Rightarrow> string \<Rightarrow> ('c, 'g) state \<Rightarrow> ('c, 'g) state" where
  "os_system T command out url s =
     s\<lparr>files := (files s)(out := wget T url (files s out)), trace := trace s @ [System command]\<rparr>"

definition shutil_move ::
  "path \<Rightarrow> path \<Rightarrow> ('c, 'g) state \<Rightarrow> ('c, 'g) state \<times> (error + path option)" where
  "shutil_move src dst s =
     (case move src dst (files s) of
        (fs', r) \<Rightarrow> (s\<lparr>files := fs', trace := trace s @ [Move src dst]\<rparr>, r))"

definition Raster_open ::
  "('c, 'g) tools \<Rightarrow> path \<Rightarrow> 'g option \<Rightarrow> string \<Rightarrow> ('c, 'g) state \<Rightarrow> ('c, 'g) state \<times> (error + 'g raster)" where
  "Raster_open T filename geom method s =
     (s\<lparr>trace := trace s @ [Open filename geom method]\<rparr>,
      raster_open T (stat (files s) filename) geom method)"

section \<open>The class SoilGrids\<close>

definition DEFAULT_RESAMPLING :: string where
  "DEFAULT_RESAMPLING = ''cubic''"

definition DEFAULT_WORKING_DIRECTORY :: path where
  "DEFAULT_WORKING_DIRECTORY = ''.''"

definition DEFAULT_DOWNLOAD_DIRECTORY :: path where
  "DEFAULT_DOWNLOAD_DIRECTORY = ''SoilGrids_download''"

definition FC_URL :: string where
  "FC_URL = ''https://zenodo.org/record/2784001/files/sol_watercontent.33kPa_usda.4b1c_m_250m_b0..0cm_1950..2017_v0.1.tif''"

definition WP_URL :: string where
  "WP_URL = ''https://zenodo.org/record/2784001/files/sol_watercontent.1500kPa_usda.3c2a1a_m_250m_b0..0cm_1950..2017_v0.1.tif''"

text \<open>\<open>__init__\<close>; an argument left out is \<open>None\<close>.\<close>

definition SoilGrids_init :: "os_env \<Rightarrow> path option \<Rightarrow> path option \<Rightarrow> string \<Rightarrow> SoilGrids" where
  "SoilGrids_init E working_directory_arg source_directory_arg resampling_arg =
     (let wd = (case working_directory_arg of
                  None \<Rightarrow> abspath E (expanduser E DEFAULT_WORKING_DIRECTORY)
                | Some d \<Rightarrow> d);
          sd = (case source_directory_arg of
                  None \<Rightarrow> join wd DEFAULT_DOWNLOAD_DIRECTORY
                | Some d \<Rightarrow> d)
      in \<lparr>working_directory = abspath E (expanduser E wd),
          source_directory = abspath E (expanduser E sd),
          resampling = resampling_arg\<rparr>)"

definition FC_filename :: "SoilGrids \<Rightarrow> path" where
  "FC_filename self = join (source_directory self) (basename FC_URL)"

definition WP_filename :: "SoilGrids \<Rightarrow> path" where
  "WP_filename self = join (source_directory self) (basename WP_URL)"

text \<open>The command line \<open>f'wget -c -O "{partial_filename}" "{URL}"'\<close>.\<close>

definition wget_command :: "path \<Rightarrow> string \<Rightarrow> string" where
  \<open>wget_command partial_filename URL =
     ''wget -c -O "'' @ partial_filename @ ''" "'' @ URL @ ''"''\<close>

text \<open>\<open>download_file\<close>. The log lines and the timing around the transfer are left out:
  they change nothing the program reads.\<close>

definition download_file ::
  "('c, 'g) tools \<Rightarrow> string \<Rightarrow> path \<Rightarrow> ('c, 'g) state \<Rightarrow> ('c, 'g) state \<times> (error + path)" where
  "download_file T URL filename s =
     (if exists (files s) filename then (s, Inr filename)
      else
        let directory = dirname filename
        in case os_makedirs directory s of
             (s1, Inl e) \<Rightarrow> (s1, Inl e)
           | (s1, Inr _) \<Rightarrow>
               let partial_filename = filename @ ''.download'';
                   command = wget_command partial_filename URL;
                   s2 = os_system T command partial_filename URL s1
               in if \<not> exists (files s2) partial_filename
                  then (s2, Inl (IOError (''unable to download URL: '' @ URL)))
                  else (case shutil_move partial_filename filename s2 of
                          (s3, Inl e) \<Rightarrow> (s3, Inl e)
                        | (s3, Inr _) \<Rightarrow> (s3, Inr filename)))"

definition FC ::
  "('c, 'g) tools \<Rightarrow> 'g option \<Rightarrow> string option \<Rightarrow> ('c, 'g) state \<Rightarrow> ('c, 'g) state \<times> (error + 'g raster)" where
  "FC T geom resampling_arg s =
     (let method = (case resampling_arg of None \<Rightarrow> resampling (this s) | Some r \<Rightarrow> r);
          URL = FC_URL;
          filename = FC_filename (this s)
      in case (if \<not> exists (files s) filename
               then download_file T URL filename s
               else (s, Inr filename)) of
           (s1, Inl e) \<Rightarrow> (s1, Inl e)
         | (s1, Inr _) \<Rightarrow>
             (case Raster_open T filename geom method s1 of
                (s2, Inl e) \<Rightarrow> (s2, Inl e)
              | (s2, Inr image0) \<Rightarrow>
                  let image1 = rt_where (rt_eq image0 255) NaN image0;
                      image2 = image1\<lparr>nodata := Some NaN\<rparr>;
                      image3 = rt_clip (rt_truediv (fl T) image2 100) 0 1
                  in (s2, Inr image3)))"

definition WP ::
  "('c, 'g) tools \<Rightarrow> 'g option \<Rightarrow> string option \<Rightarrow> ('c, 'g) state \<Rightarrow> ('c, 'g) state \<times> (error + 'g raster)" where
  "WP T geom resampling_arg s =
     (let method = (case resampling_arg of None \<Rightarrow> resampling (this s) | Some r \<Rightarrow> r);
          URL = WP_URL;
          filename = WP_filename (this s)
      in case (if \<not> exists (files s) filename
               then download_file T URL filename s
               else (s, Inr filename)) of
           (s1, Inl e) \<Rightarrow> (s1, Inl e)
         | (s1, Inr _) \<Rightarrow>
             (case Raster_open T filename geom method s1 of
                (s2, Inl e) \<Rightarrow> (s2, Inl e)
              | (s2, Inr image0) \<Rightarrow>
                  let image1 = rt_where (rt_eq image0 255) NaN image0;
                      image2 = image1\<lparr>nodata := Some NaN\<rparr>;
                      image3 = rt_clip (rt_truediv (fl T) image2 100) 0 1
                  in (s2, Inr image3)))"

section \<open>The accessor as the specification words it\<close>

text \<open>
  The specification describes one routine per product: resolve the resampling method,
  resolve the local path from the URL, fetch the file when it is absent, open it, and
  transform every value (the sentinel 255 becomes missing, every other value is divided
  by 100 and clamped to the interval from 0 to 1; the declared missing-value marker is
  not-a-number). The two definitions below follow those words, not the code; they are
  compared with \<open>FC\<close> and \<open>WP\<close> further down.
\<close>

definition spec_transform :: "(real \<Rightarrow> real) \<Rightarrow> 'g raster \<Rightarrow> 'g raster" where
  "spec_transform rnd raw =
     \<lparr>array = map (\<lambda>x. case x of
                          NaN \<Rightarrow> NaN
                        | Num v \<Rightarrow> if v = 255 then NaN else Num (min 1 (max (rnd (v / 100)) 0)))
                   (array raw),
      nodata = Some NaN,
      geometry = geometry raw\<rparr>"

definition product_get ::
  "('c, 'g) tools \<Rightarrow> string \<Rightarrow> 'g option \<Rightarrow> string option \<Rightarrow> ('c, 'g) state
     \<Rightarrow> ('c, 'g) state \<times> (error + 'g raster)" where
  "product_get T url geom resampling_arg s =
     (let method = (case resampling_arg of None \<Rightarrow> resampling (this s) | Some r \<Rightarrow> r);
          local_path = join (source_directory (this s)) (basename url)
      in case (if exists (files s) local_path then (s, Inr local_path)
               else download_file T url local_path s) of
           (s1, Inl e) \<Rightarrow> (s1, Inl e)
         | (s1, Inr _) \<Rightarrow>
             (case Raster_open T local_path geom method s1 of
                (s2, Inl e) \<Rightarrow> (s2, Inl e)
              | (s2, Inr raw) \<Rightarrow> (s2, Inr (spec_transform (fl T) raw))))"

section \<open>Reading the trace\<close>

text \<open>The commands handed to \<open>os.system\<close>, and the calls of the raster open operation.\<close>

fun transfers :: "'g event list \<Rightarrow> string list" where
  "transfers [] = []"
| "transfers (System c # es) = c # transfers es"
| "transfers (_ # es) = transfers es"

fun opens :: "'g event list \<Rightarrow> (path \<times> 'g option \<times> string) list" where
  "opens [] = []"
| "opens (Open p g m # es) = (p, g, m) # opens es"
| "opens (_ # es) = opens es"

section \<open>A small instance\<close>

text \<open>
  An instance to run the theorems on: a raster of four values, tools with exact division
  (one whose transfer always leaves a file, one whose transfer leaves nothing), a state
  with the field-capacity file in place, one with both files, one with only the
  directories and what that one becomes when the field-capacity file is fetched, and a
  process environment.
\<close>

definition example_self :: SoilGrids where
  "example_self = \<lparr>working_directory = ''/w'', source_directory = ''/w/d'', resampling = ''cubic''\<rparr>"

definition example_raw :: "unit raster" where
  "example_raw = \<lparr>array = [Num 255, Num 50, Num 150, NaN], nodata = None, geometry = ()\<rparr>"

definition example_tools :: "(nat, unit) tools" where
  "example_tools =
     \<lparr>wget = (\<lambda>url old. Some (File 7)),
      raster_open = (\<lambda>n g m. case n of Some (File c) \<Rightarrow> Inr example_raw
                                | _ \<Rightarrow> Inl (RasterError ''cannot open'')),
      fl = (\<lambda>x. x)\<rparr>"

definition cached_state :: "(nat, unit) state" where
  "cached_state =
     \<lparr>this = example_self,
      files = [FC_filename example_self \<mapsto> File 7],
      trace = []\<rparr>"

definition library_state :: "(nat, unit) state" where
  "library_state =
     cached_state\<lparr>files := (files cached_state)(WP_filename example_self \<mapsto> File 7)\<rparr>"

definition absent_tools :: "(nat, unit) tools" where
  "absent_tools = example_tools\<lparr>wget := (\<lambda>url old. None)\<rparr>"

definition fresh_state :: "(nat, unit) state" where
  "fresh_state = \<lparr>this = example_self, files = [''/w'' \<mapsto> Dir, ''/w/d'' \<mapsto> Dir], trace = []\<rparr>"

definition example_env :: os_env where
  "example_env = \<lparr>cwd = ''/home/u'', HOME = Some ''/home/u'', pw_uid_dir = None,
                   pw_nam_dir = Map.empty\<rparr>"

definition fetched_state :: "(nat, unit) state" where
  "fetched_state =
     fresh_state\<lparr>files := (files fresh_state)(FC_filename example_self @ ''.download'' := None,
                                                 FC_filename example_self \<mapsto> File 7),
                 trace := [Makedirs (dirname (FC_filename example_self)),
                           System (wget_command (FC_filename example_self @ ''.download'') FC_URL),
                           Move (FC_filename example_self @ ''.download'') (FC_filename example_self)]\<rparr>"

section \<open>Lemmas about path names and directories\<close>

lemma upto_last_sep_prefix: "prefix (upto_last_sep p) p"
proof -
  have "upto_last_sep p @ after_last_sep p = p"
    unfolding upto_last_sep_def after_last_sep_def
    by (metis rev_append rev_rev_ident takeWhile_dropWhile_id)
  then show ?thesis by (metis prefixI)
qed

lemma rstrip_sep_prefix: "prefix (rstrip_sep q) q"
proof -
  have "rstrip_sep q @ rev (takeWhile (\<lambda>c. c = sep) (rev q)) = q"
    unfolding rstrip_sep_def
    by (metis rev_append rev_rev_ident takeWhile_dropWhile_id)
  then show ?thesis by (metis prefixI)
qed

lemma dirname_prefix: "prefix (dirname p) p"
  using upto_last_sep_prefix[of p] rstrip_sep_prefix[of "upto_last_sep p"]
  by (auto simp: dirname_def Let_def intro: prefix_order.trans)

lemma length_dirname_basename: "length (dirname p) + length (basename p) \<le> length p"
proof -
  have "upto_last_sep p @ after_last_sep p = p"
    unfolding upto_last_sep_def after_last_sep_def
    by (metis rev_append rev_rev_ident takeWhile_dropWhile_id)
  then have "length (upto_last_sep p) + length (after_last_sep p) = length p"
    by (metis length_append)
  moreover have "length (dirname p) \<le> length (upto_last_sep p)"
    using prefix_length_le[OF rstrip_sep_prefix[of "upto_last_sep p"]]
    by (simp add: dirname_def Let_def)
  ultimately show ?thesis by (simp add: basename_def)
qed

lemma dirname_neq: "basename p \<noteq> [] \<Longrightarrow> dirname p \<noteq> p"
  using length_dirname_basename[of p] by (cases "basename p") auto

lemma basename_Nil_iff: "basename p = [] \<longleftrightarrow> p = [] \<or> last p = sep"
  by (cases p rule: rev_cases) (auto simp: basename_def after_last_sep_def)

lemma rstrip_sep_last: "rstrip_sep p \<noteq> [] \<Longrightarrow> last (rstrip_sep p) \<noteq> sep"
proof -
  assume ne: "rstrip_sep p \<noteq> []"
  define xs where "xs = dropWhile (\<lambda>c. c = sep) (rev p)"
  have "xs \<noteq> []" using ne by (simp add: rstrip_sep_def xs_def)
  then have "hd xs \<noteq> sep" unfolding xs_def using hd_dropWhile[of "\<lambda>c. c = sep" "rev p"] by simp
  moreover have "last (rev xs) = hd xs" using \<open>xs \<noteq> []\<close> by (simp add: last_rev)
  ultimately show ?thesis by (simp add: rstrip_sep_def xs_def)
qed

lemma rstrip_sep_basename: "rstrip_sep p \<noteq> [] \<Longrightarrow> basename (rstrip_sep p) \<noteq> []"
  by (simp add: basename_Nil_iff rstrip_sep_last)

lemma basename_append:
  assumes "sep \<notin> set x"
  shows "basename (p @ x) = basename p @ x"
proof -
  have "takeWhile (\<lambda>c. c \<noteq> sep) (rev x @ rev p) = rev x @ takeWhile (\<lambda>c. c \<noteq> sep) (rev p)"
    using assms by (intro takeWhile_append2) auto
  then show ?thesis by (simp add: basename_def after_last_sep_def)
qed

lemma basename_no_sep: "sep \<notin> set p \<Longrightarrow> basename p = p"
  using basename_append[of p "[]"] by (simp add: basename_def after_last_sep_def)

lemma basename_Cons:
  "basename (c # cs) = (if sep \<in> set cs then basename cs else if c = sep then cs else c # cs)"
proof (cases "sep \<in> set cs")
  case True
  then have "\<not> (\<forall>x \<in> set (rev cs). x \<noteq> sep)" by auto
  then have "takeWhile (\<lambda>x. x \<noteq> sep) (rev cs @ [c]) = takeWhile (\<lambda>x. x \<noteq> sep) (rev cs)"
    by (metis (mono_tags, lifting) takeWhile_append1)
  with True show ?thesis by (simp add: basename_def after_last_sep_def)
next
  case False
  then have "takeWhile (\<lambda>x. x \<noteq> sep) (rev cs @ [c]) = rev cs @ takeWhile (\<lambda>x. x \<noteq> sep) [c]"
    by (intro takeWhile_append2) auto
  with False show ?thesis by (simp add: basename_def after_last_sep_def)
qed

lemma after_last_sep_append:
  assumes "sep \<notin> set b" and "a = [] \<or> last a = sep"
  shows "after_last_sep (a @ b) = b"
proof -
  have "takeWhile (\<lambda>c. c \<noteq> sep) (rev a) = []"
    using assms(2) by (cases a rule: rev_cases) auto
  moreover have "takeWhile (\<lambda>c. c \<noteq> sep) (rev b @ rev a)
                   = rev b @ takeWhile (\<lambda>c. c \<noteq> sep) (rev a)"
    using assms(1) by (intro takeWhile_append2) auto
  ultimately show ?thesis
    by (simp add: after_last_sep_def)
qed

lemma basename_join:
  assumes "sep \<notin> set b"
  shows "basename (join a b) = b"
proof -
  have nabs: "\<not> isabs b" using assms by (cases b) (auto simp: isabs_def)
  show ?thesis
  proof (cases "a = [] \<or> last a = sep")
    case True
    with nabs after_last_sep_append[OF assms True] show ?thesis
      by (auto simp: join_def basename_def)
  next
    case False
    have "after_last_sep ((a @ [sep]) @ b) = b"
      by (rule after_last_sep_append[OF assms]) simp
    with nabs False show ?thesis by (simp add: join_def basename_def)
  qed
qed

lemma basename_FC_URL:
  "basename FC_URL = ''sol_watercontent.33kPa_usda.4b1c_m_250m_b0..0cm_1950..2017_v0.1.tif''"
  by (simp add: basename_def after_last_sep_def FC_URL_def sep_def)

lemma basename_WP_URL:
  "basename WP_URL = ''sol_watercontent.1500kPa_usda.3c2a1a_m_250m_b0..0cm_1950..2017_v0.1.tif''"
  by (simp add: basename_def after_last_sep_def WP_URL_def sep_def)

lemma product_filename_basename:
  "basename (FC_filename self) = basename FC_URL" "basename (WP_filename self) = basename WP_URL"
  "basename FC_URL \<noteq> []" "basename WP_URL \<noteq> []"
proof -
  have "sep \<notin> set (basename FC_URL)" by (simp add: basename_FC_URL sep_def)
  then show "basename (FC_filename self) = basename FC_URL"
    unfolding FC_filename_def by (rule basename_join)
  have "sep \<notin> set (basename WP_URL)" by (simp add: basename_WP_URL sep_def)
  then show "basename (WP_filename self) = basename WP_URL"
    unfolding WP_filename_def by (rule basename_join)
  show "basename FC_URL \<noteq> []" by (simp add: basename_FC_URL)
  show "basename WP_URL \<noteq> []" by (simp add: basename_WP_URL)
qed

lemma split_sep_not_Nil [simp]: "split_sep p \<noteq> []"
  by (cases p) (auto split: list.splits)

lemma split_sep_no_sep: "sep \<notin> set p \<Longrightarrow> split_sep p = [p]"
  by (induction p) auto

lemma split_sep_with_sep: "sep \<in> set p \<Longrightarrow> tl (split_sep p) \<noteq> []"
  by (induction p) (auto split: list.splits)

lemma last_split_sep: "last (split_sep p) = basename p"
proof (induction p)
  case Nil
  show ?case by (simp add: basename_def after_last_sep_def)
next
  case (Cons c cs)
  show ?case
  proof (cases "sep \<in> set cs")
    case True
    from split_sep_with_sep[OF True] obtain w v ws where "split_sep cs = w # v # ws"
      by (cases "split_sep cs"; cases "tl (split_sep cs)") auto
    with Cons True show ?thesis by (simp add: basename_Cons)
  next
    case False
    with Cons split_sep_no_sep[OF False] show ?thesis by (simp add: basename_Cons)
  qed
qed

lemma plain_name_basename:
  assumes "plain_name p"
  shows "basename p \<noteq> [] \<and> basename p \<noteq> ''.''"
proof -
  define q where "q = (if isabs p then tl p else p)"
  have "basename q = basename p"
  proof (cases "isabs p")
    case True
    then obtain cs where "p = sep # cs" by (cases p) (auto simp: isabs_def)
    then show ?thesis using True by (simp add: q_def basename_Cons basename_no_sep)
  next
    case False
    then show ?thesis by (simp add: q_def)
  qed
  moreover have "proper (last (split_sep q))"
    using assms by (simp add: plain_name_def q_def)
  ultimately show ?thesis by (simp add: last_split_sep proper_def)
qed

lemmas path_eval =
  normpath_def initial_slashes_def isabs_def sep_def norm_step_def join_def abspath_def
  expanduser_def rstrip_sep_def Let_def

lemma isabs_join: "isabs a \<Longrightarrow> isabs (join a b)"
  by (cases a) (auto simp: join_def isabs_def)

lemma isabs_normpath:
  assumes "isabs p"
  shows "isabs (normpath p)"
proof -
  from assms have "initial_slashes p = Suc 0 \<or> initial_slashes p = Suc (Suc 0)"
    by (simp add: initial_slashes_def)
  then obtain n where n: "initial_slashes p = Suc n"
    by blast
  from assms have "p \<noteq> []" by (auto simp: isabs_def)
  with n show ?thesis
    by (simp add: normpath_def Let_def isabs_def)
qed

lemma isabs_abspath: "isabs (cwd E) \<Longrightarrow> isabs (abspath E p)"
  by (simp add: abspath_def isabs_normpath isabs_join)

lemma expanduser_isabs: "isabs p \<Longrightarrow> expanduser E p = p"
  by (cases p) (auto simp: expanduser_def isabs_def sep_def)

lemma canon_plain:
  assumes "basename p \<noteq> []" and "basename p \<noteq> ''.''"
  shows "canon p = p"
proof -
  from assms(1) obtain c xs where rp: "rev p = c # xs" and c: "c \<noteq> sep"
    by (cases p rule: rev_cases) (auto simp: basename_def after_last_sep_def split: if_splits)
  have "strip_dots (c # xs) = c # xs"
  proof (cases xs)
    case Nil
    with c show ?thesis by simp
  next
    case (Cons d ys)
    have "\<not> (c = CHR ''.'' \<and> d = sep)"
    proof
      assume "c = CHR ''.'' \<and> d = sep"
      with rp Cons have "basename p = ''.''"
        by (simp add: basename_def after_last_sep_def sep_def)
      with assms(2) show False by simp
    qed
    with c Cons show ?thesis by auto
  qed
  with rp show ?thesis
    by (simp add: canon_def Let_def)
qed

lemma stat_plain:
  assumes "basename p \<noteq> []" and "basename p \<noteq> ''.''"
  shows "stat fs p = fs p"
proof -
  have "p \<noteq> []" using assms(1) by (auto simp: basename_def after_last_sep_def)
  moreover have "p \<noteq> [sep]" using assms(1) by (auto simp: basename_def after_last_sep_def)
  moreover have "p \<noteq> ''.''" using assms(2) by (auto simp: basename_def after_last_sep_def sep_def)
  ultimately show ?thesis
    using canon_plain[OF assms] by (simp add: stat_def Let_def)
qed

lemma stat_download:
  assumes "basename p \<noteq> []"
  shows "stat fs (p @ ''.download'') = fs (p @ ''.download'')"
proof -
  have "basename (p @ ''.download'') = basename p @ ''.download''"
    by (rule basename_append) (simp add: sep_def)
  then show ?thesis by (intro stat_plain) auto
qed

lemma product_filename_plain:
  "stat fs (FC_filename self) = fs (FC_filename self)"
  "stat fs (WP_filename self) = fs (WP_filename self)"
  "stat fs (FC_filename self @ ''.download'') = fs (FC_filename self @ ''.download'')"
  "stat fs (WP_filename self @ ''.download'') = fs (WP_filename self @ ''.download'')"
  "canon (FC_filename self) = FC_filename self"
  "canon (WP_filename self) = WP_filename self"
  "canon (FC_filename self @ ''.download'') = FC_filename self @ ''.download''"
  "canon (WP_filename self @ ''.download'') = WP_filename self @ ''.download''"
proof -
  have FC: "basename (FC_filename self) \<noteq> []" "basename (FC_filename self) \<noteq> ''.''"
    by (simp_all add: product_filename_basename(1) basename_FC_URL)
  have WP: "basename (WP_filename self) \<noteq> []" "basename (WP_filename self) \<noteq> ''.''"
    by (simp_all add: product_filename_basename(2) basename_WP_URL)
  have dl: "basename (p @ ''.download'') \<noteq> [] \<and> basename (p @ ''.download'') \<noteq> ''.''" for p
    using basename_append[of "''.download''" p] by (simp add: sep_def)
  show "stat fs (FC_filename self) = fs (FC_filename self)" using FC by (rule stat_plain)
  show "stat fs (WP_filename self) = fs (WP_filename self)" using WP by (rule stat_plain)
  show "stat fs (FC_filename self @ ''.download'') = fs (FC_filename self @ ''.download'')"
    using dl by (intro stat_plain) auto
  show "stat fs (WP_filename self @ ''.download'') = fs (WP_filename self @ ''.download'')"
    using dl by (intro stat_plain) auto
  show "canon (FC_filename self) = FC_filename self" using FC by (rule canon_plain)
  show "canon (WP_filename self) = WP_filename self" using WP by (rule canon_plain)
  show "canon (FC_filename self @ ''.download'') = FC_filename self @ ''.download''"
    using dl by (intro canon_plain) auto
  show "canon (WP_filename self @ ''.download'') = WP_filename self @ ''.download''"
    using dl by (intro canon_plain) auto
qed

lemma head_prefix: "prefix (fst (head_tail name)) name"
  using dirname_prefix[of name] dirname_prefix[of "dirname name"]
  by (auto simp: head_tail_def path_split_def intro: prefix_order.trans)

lemma fst_pass_FileExistsError [simp]: "fst (pass_FileExistsError res) = fst res"
  by (auto simp: pass_FileExistsError_def split: sum.splits error.splits)

lemma mkdir_new:
  assumes "mkdir name fs = (fs', r)" and "fs' p \<noteq> fs p"
  shows "fs p = None \<and> fs' p = Some Dir \<and> prefix p name"
proof -
  define key where "key = rstrip_sep name"
  from assms have made: "fs' = fs(key \<mapsto> Dir)" and p: "p = key"
    and new: "\<not> exists fs key" "key \<noteq> []" "basename key \<noteq> ''.''"
    by (auto simp: mkdir_def Let_def key_def split: if_splits option.splits node.splits)
  have "basename key \<noteq> []"
    using new(2) unfolding key_def by (rule rstrip_sep_basename)
  from stat_plain[OF this new(3), of fs] new(1) have "fs key = None"
    by (simp add: exists_def)
  with made p rstrip_sep_prefix[of name] show ?thesis
    by (simp add: key_def)
qed

lemma makedirs_new:
  "makedirs name fs = (fs', r) \<Longrightarrow> fs' p \<noteq> fs p \<Longrightarrow>
     fs p = None \<and> fs' p = Some Dir \<and> prefix p name"
proof (induction name fs arbitrary: fs' r p rule: makedirs.induct)
  case (1 name fs)
  define head where "head = fst (head_tail name)"
  define tail where "tail = snd (head_tail name)"
  define descend where "descend \<longleftrightarrow> head \<noteq> [] \<and> tail \<noteq> [] \<and> \<not> exists fs head"
  define res where "res = (if descend then pass_FileExistsError (makedirs head fs) else (fs, Inr ()))"
  have unfold: "makedirs name fs =
       (case snd res of
           Inl e \<Rightarrow> res
         | Inr _ \<Rightarrow>
             if descend \<and> tail = ''.'' then res
             else (case mkdir name (fst res) of
                     (fs2, Inl e) \<Rightarrow> if isdir fs2 name then (fs2, Inr ()) else (fs2, Inl e)
                   | (fs2, Inr _) \<Rightarrow> (fs2, Inr ())))"
    by (subst makedirs.simps, unfold Let_def res_def descend_def head_def tail_def, rule refl)
  have res_new: "fs q = None \<and> fst res q = Some Dir \<and> prefix q name" if neq: "fst res q \<noteq> fs q" for q
  proof (cases descend)
    case False
    with neq show ?thesis by (simp add: res_def)
  next
    case True
    obtain fsa ra where rec: "makedirs head fs = (fsa, ra)" by (cases "makedirs head fs")
    have fm: "fst res = fsa"
      using True rec by (simp add: res_def)
    have "fs q = None \<and> fsa q = Some Dir \<and> prefix q head"
      using "1.IH"[OF head_def tail_def] True rec neq fm unfolding descend_def by blast
    with head_prefix[of name] fm show ?thesis by (auto simp: head_def intro: prefix_order.trans)
  qed
  show ?case
  proof (cases "fs' p = fst res p")
    case True
    with "1.prems" res_new[of p] show ?thesis by simp
  next
    case False
    with "1.prems"(1) obtain r2 where mk: "mkdir name (fst res) = (fs', r2)"
      by (cases res) (auto simp: unfold split: sum.splits if_splits prod.splits)
    from mkdir_new[OF mk False] have *: "fst res p = None" "fs' p = Some Dir" "prefix p name" by auto
    have "fs p = None" using res_new[of p] * by (cases "fst res p = fs p") auto
    with * show ?thesis by simp
  qed
qed

lemma makedirs_self:
  assumes "makedirs (dirname filename) fs = (fs', r)" and "dirname filename \<noteq> filename"
  shows "fs' filename = fs filename"
proof (rule ccontr)
  assume "fs' filename \<noteq> fs filename"
  from makedirs_new[OF assms(1) this] have "prefix filename (dirname filename)" by simp
  with dirname_prefix[of filename] assms(2) show False
    by (simp add: prefix_order.antisym)
qed

section \<open>Lemmas about the fetcher and the accessors\<close>

lemma transfers_append [simp]: "transfers (xs @ ys) = transfers xs @ transfers ys"
  by (induction xs rule: transfers.induct) auto

lemma opens_append [simp]: "opens (xs @ ys) = opens xs @ opens ys"
  by (induction xs rule: opens.induct) auto

lemma pipeline_eq:
  "rt_clip (rt_truediv rnd ((rt_where (rt_eq raw 255) NaN raw)\<lparr>nodata := Some NaN\<rparr>) 100) 0 1
     = spec_transform rnd raw"
  by (cases raw)
     (auto simp: rt_clip_def rt_truediv_def rt_where_def rt_eq_def spec_transform_def
                 zip_map1 zip_same_conv_map comp_def split: pixel.splits)

lemma spec_transform_simps [simp]:
  "length (array (spec_transform rnd raw)) = length (array raw)"
  "nodata (spec_transform rnd raw) = Some NaN"
  "geometry (spec_transform rnd raw) = geometry raw"
  by (simp_all add: spec_transform_def)

lemma spec_transform_nth:
  "i < length (array raw) \<Longrightarrow>
     array (spec_transform rnd raw) ! i =
       (case array raw ! i of
          NaN \<Rightarrow> NaN
        | Num v \<Rightarrow> if v = 255 then NaN else Num (min 1 (max (rnd (v / 100)) 0)))"
  by (simp add: spec_transform_def)

lemma os_makedirs_this: "os_makedirs d s = (s', r) \<Longrightarrow> this s' = this s"
  by (auto simp: os_makedirs_def split: prod.splits)

lemma shutil_move_this: "shutil_move a b s = (s', r) \<Longrightarrow> this s' = this s"
  by (auto simp: shutil_move_def split: prod.splits)

lemma download_file_this: "download_file T URL filename s = (s', r) \<Longrightarrow> this s' = this s"
  by (auto simp: download_file_def Let_def os_system_def
           dest!: os_makedirs_this shutil_move_this split: if_splits prod.splits sum.splits)

lemma download_file_hit: "exists (files s) filename \<Longrightarrow> download_file T URL filename s = (s, Inr filename)"
  by (simp add: download_file_def)

lemma download_file_miss:
  assumes "\<not> exists (files s) filename"
  shows "download_file T URL filename s =
     (case os_makedirs (dirname filename) s of
        (s1, Inl e) \<Rightarrow> (s1, Inl e)
      | (s1, Inr _) \<Rightarrow>
          let s2 = os_system T (wget_command (filename @ ''.download'') URL)
                     (filename @ ''.download'') URL s1
          in if \<not> exists (files s2) (filename @ ''.download'')
             then (s2, Inl (IOError (''unable to download URL: '' @ URL)))
             else (case shutil_move (filename @ ''.download'') filename s2 of
                     (s3, Inl e) \<Rightarrow> (s3, Inl e)
                   | (s3, Inr _) \<Rightarrow> (s3, Inr filename)))"
  using assms unfolding download_file_def Let_def
  by (simp cong: prod.case_cong sum.case_cong if_cong)

lemma download_file_after_makedirs:
  assumes "\<not> exists (files s) filename"
      and "makedirs (dirname filename) (files s) = (fs1, Inr ())"
  shows "download_file T URL filename s =
     (let s2 = s\<lparr>files := fs1(filename @ ''.download'' := wget T URL (fs1 (filename @ ''.download''))),
                 trace := trace s @ [Makedirs (dirname filename),
                                     System (wget_command (filename @ ''.download'') URL)]\<rparr>
      in if \<not> exists (files s2) (filename @ ''.download'')
         then (s2, Inl (IOError (''unable to download URL: '' @ URL)))
         else (case shutil_move (filename @ ''.download'') filename s2 of
                 (s3, Inl e) \<Rightarrow> (s3, Inl e)
               | (s3, Inr _) \<Rightarrow> (s3, Inr filename)))"
  unfolding download_file_miss[OF assms(1)]
  by (simp add: os_makedirs_def assms(2) os_system_def Let_def)

lemma os_makedirs_opens: "os_makedirs d s = (s', r) \<Longrightarrow> opens (trace s') = opens (trace s)"
  by (auto simp: os_makedirs_def split: prod.splits)

lemma os_system_opens: "opens (trace (os_system T c out url s)) = opens (trace s)"
  by (simp add: os_system_def)

lemma shutil_move_opens: "shutil_move a b s = (s', r) \<Longrightarrow> opens (trace s') = opens (trace s)"
  by (auto simp: shutil_move_def split: prod.splits)

lemma download_file_opens:
  assumes "download_file T URL filename s = (s', r)"
  shows "opens (trace s') = opens (trace s)"
proof (cases "exists (files s) filename")
  case True
  with assms show ?thesis by (simp add: download_file_hit)
next
  case False
  obtain s1 r1 where mk: "os_makedirs (dirname filename) s = (s1, r1)"
    by (cases "os_makedirs (dirname filename) s")
  define s2 where "s2 = os_system T (wget_command (filename @ ''.download'') URL)
                     (filename @ ''.download'') URL s1"
  obtain s3 r3 where mv: "shutil_move (filename @ ''.download'') filename s2 = (s3, r3)"
    by (cases "shutil_move (filename @ ''.download'') filename s2")
  have o1: "opens (trace s1) = opens (trace s)" using mk by (rule os_makedirs_opens)
  have o2: "opens (trace s2) = opens (trace s1)" unfolding s2_def by (rule os_system_opens)
  have o3: "opens (trace s3) = opens (trace s2)" using mv by (rule shutil_move_opens)
  from assms have "s' = s1 \<or> s' = s2 \<or> s' = s3"
    unfolding download_file_miss[OF False] mk Let_def
    using mv[unfolded s2_def] by (auto simp: s2_def split: sum.splits if_splits)
  with o1 o2 o3 show ?thesis by auto
qed

lemma FC_product_get: "FC T geom r s = product_get T FC_URL geom r s"
  by (simp add: FC_def product_get_def FC_filename_def Let_def pipeline_eq)

lemma WP_product_get: "WP T geom r s = product_get T WP_URL geom r s"
  by (simp add: WP_def product_get_def WP_filename_def Let_def pipeline_eq)

lemma product_get_this: "product_get T url geom r s = (s', res) \<Longrightarrow> this s' = this s"
  by (auto simp: product_get_def Let_def Raster_open_def
           dest!: download_file_this split: if_splits prod.splits sum.splits)

lemma product_get_hit:
  assumes "exists (files s) (join (source_directory (this s)) (basename url))"
  shows "product_get T url geom r s =
           (s\<lparr>trace := trace s @ [Open (join (source_directory (this s)) (basename url)) geom
                                     (case r of None \<Rightarrow> resampling (this s) | Some m \<Rightarrow> m)]\<rparr>,
            case raster_open T (stat (files s) (join (source_directory (this s)) (basename url))) geom
                   (case r of None \<Rightarrow> resampling (this s) | Some m \<Rightarrow> m) of
              Inl e \<Rightarrow> Inl e
            | Inr raw \<Rightarrow> Inr (spec_transform (fl T) raw))"
  using assms
  by (simp add: product_get_def Let_def Raster_open_def split: sum.splits)

lemma product_get_returns:
  assumes "(exists (files s) (join (source_directory (this s)) (basename url)) \<and> s1 = s) \<or>
           (\<not> exists (files s) (join (source_directory (this s)) (basename url)) \<and>
            download_file T url (join (source_directory (this s)) (basename url)) s = (s1, Inr p))"
      and "raster_open T (stat (files s1) (join (source_directory (this s)) (basename url))) geom
             (case r of None \<Rightarrow> resampling (this s) | Some m \<Rightarrow> m) = Inr raw"
  shows "product_get T url geom r s =
           (s1\<lparr>trace := trace s1 @ [Open (join (source_directory (this s)) (basename url)) geom
                                       (case r of None \<Rightarrow> resampling (this s) | Some m \<Rightarrow> m)]\<rparr>,
            Inr (spec_transform (fl T) raw))"
  using assms
  by (auto simp: product_get_def Let_def Raster_open_def)

lemma product_get_opens:
  assumes "product_get T url geom r s = (s', res)"
  shows "opens (trace s') = opens (trace s) @ [(join (source_directory (this s)) (basename url), geom,
                                  case r of None \<Rightarrow> resampling (this s) | Some m \<Rightarrow> m)]
         \<or> (opens (trace s') = opens (trace s)
             \<and> \<not> exists (files s) (join (source_directory (this s)) (basename url))
             \<and> (\<exists>e. download_file T url (join (source_directory (this s)) (basename url)) s = (s', Inl e)
                    \<and> res = Inl e))"
proof (cases "exists (files s) (join (source_directory (this s)) (basename url))")
  case True
  with assms show ?thesis by (auto simp: product_get_hit)
next
  case False
  define local_path where "local_path = join (source_directory (this s)) (basename url)"
  obtain s1 r1 where dl: "download_file T url local_path s = (s1, r1)"
    by (cases "download_file T url local_path s")
  have o1: "opens (trace s1) = opens (trace s)" using dl by (rule download_file_opens)
  show ?thesis
  proof (cases r1)
    case (Inl e)
    with assms False dl o1 show ?thesis
      by (simp add: product_get_def Let_def local_path_def)
  next
    case (Inr q)
    with assms False dl o1 show ?thesis
      by (auto simp: product_get_def Let_def local_path_def[symmetric] Raster_open_def
               split: sum.splits)
  qed
qed

lemma accessor_returns:
  assumes "(accessor = FC \<and> filename = FC_filename (this s) \<and> URL = FC_URL) \<or>
           (accessor = WP \<and> filename = WP_filename (this s) \<and> URL = WP_URL)"
      and "(exists (files s) filename \<and> s1 = s) \<or>
           (\<not> exists (files s) filename \<and> download_file T URL filename s = (s1, Inr p))"
      and "raster_open T (stat (files s1) filename) geom
             (case r of None \<Rightarrow> resampling (this s) | Some m \<Rightarrow> m) = Inr raw"
  shows "accessor T geom r s =
           (s1\<lparr>trace := trace s1 @ [Open filename geom
                                       (case r of None \<Rightarrow> resampling (this s) | Some m \<Rightarrow> m)]\<rparr>,
            Inr (spec_transform (fl T) raw))"
proof -
  have fn: "filename = join (source_directory (this s)) (basename URL)"
    and acc: "accessor T geom r s = product_get T URL geom r s"
    using assms(1) by (auto simp: FC_product_get WP_product_get FC_filename_def WP_filename_def)
  show ?thesis
    unfolding acc using product_get_returns[of s URL s1 T p geom r raw] assms(2,3)
    unfolding fn by blast
qed

lemma FC_hit:
  assumes "exists (files s) (FC_filename (this s))"
  shows "FC T geom r s =
           (s\<lparr>trace := trace s @ [Open (FC_filename (this s)) geom
                                     (case r of None \<Rightarrow> resampling (this s) | Some m \<Rightarrow> m)]\<rparr>,
            case raster_open T (stat (files s) (FC_filename (this s))) geom
                   (case r of None \<Rightarrow> resampling (this s) | Some m \<Rightarrow> m) of
              Inl e \<Rightarrow> Inl e
            | Inr raw \<Rightarrow> Inr (spec_transform (fl T) raw))"
  using assms product_get_hit[of s FC_URL T geom r]
  by (simp add: FC_product_get FC_filename_def)

lemma WP_hit:
  assumes "exists (files s) (WP_filename (this s))"
  shows "WP T geom r s =
           (s\<lparr>trace := trace s @ [Open (WP_filename (this s)) geom
                                     (case r of None \<Rightarrow> resampling (this s) | Some m \<Rightarrow> m)]\<rparr>,
            case raster_open T (stat (files s) (WP_filename (this s))) geom
                   (case r of None \<Rightarrow> resampling (this s) | Some m \<Rightarrow> m) of
              Inl e \<Rightarrow> Inl e
            | Inr raw \<Rightarrow> Inr (spec_transform (fl T) raw))"
  using assms product_get_hit[of s WP_URL T geom r]
  by (simp add: WP_product_get WP_filename_def)

section \<open>The small instance, evaluated\<close>

lemmas fs_eval =
  stat_def canon_def exists_def isdir_def isfile_def mkdir_def head_tail_def path_split_def
  dirname_def basename_def upto_last_sep_def after_last_sep_def rstrip_sep_def sep_def Let_def

lemma example_self_resampling [simp]: "resampling example_self = ''cubic''"
  by (simp add: example_self_def)

lemma example_FC:
  "FC example_tools None r cached_state =
     (cached_state\<lparr>trace := [Open (FC_filename example_self) None
                                  (case r of None \<Rightarrow> ''cubic'' | Some m \<Rightarrow> m)]\<rparr>,
      Inr (spec_transform (\<lambda>x. x) example_raw))"
proof -
  have "exists (files cached_state) (FC_filename (this cached_state))"
    by (simp add: exists_def product_filename_plain cached_state_def)
  from FC_hit[OF this, of example_tools None r] show ?thesis
    by (cases r) (simp_all add: cached_state_def example_tools_def product_filename_plain)
qed

lemma library_state_simps:
  "this library_state = example_self"
  "trace library_state = []"
  "exists (files library_state) (FC_filename example_self)"
  "exists (files library_state) (WP_filename example_self)"
  "raster_open example_tools (stat (files library_state) (FC_filename example_self)) g m = Inr example_raw"
  "raster_open example_tools (stat (files library_state) (WP_filename example_self)) g m = Inr example_raw"
  by (auto simp: library_state_def cached_state_def exists_def product_filename_plain
        example_tools_def)

lemma example_FC_filename:
  "FC_filename example_self =
     ''/w/d/sol_watercontent.33kPa_usda.4b1c_m_250m_b0..0cm_1950..2017_v0.1.tif''"
  by (simp add: FC_filename_def basename_FC_URL example_self_def join_def isabs_def sep_def)

lemma example_dirname: "dirname (FC_filename example_self) = ''/w/d''"
  by (simp add: example_FC_filename dirname_def upto_last_sep_def rstrip_sep_def sep_def Let_def)

lemma example_makedirs:
  "makedirs (dirname (FC_filename example_self)) (files fresh_state) = (files fresh_state, Inr ())"
  unfolding example_dirname
  by (subst makedirs.simps) (simp add: fs_eval fresh_state_def)

lemma example_absent:
  "\<not> exists (files fresh_state) (FC_filename example_self)"
  "files fresh_state (FC_filename example_self @ ''.download'') = None"
  by (simp_all add: exists_def product_filename_plain) (simp_all add: example_FC_filename fresh_state_def)

lemma example_plain:
  "plain_name (FC_filename example_self)"
  "shell_plain (FC_filename example_self)"
  "shell_plain FC_URL"
  by (simp_all add: example_FC_filename FC_URL_def plain_name_def shell_plain_def proper_def
        isabs_def sep_def)

lemma example_fetch:
  "download_file example_tools FC_URL (FC_filename example_self) fresh_state
     = (fetched_state, Inr (FC_filename example_self))"
proof -
  have mv: "move (FC_filename example_self @ ''.download'') (FC_filename example_self)
              ((files fresh_state)(FC_filename example_self @ ''.download'' \<mapsto> File 7))
            = ((files fresh_state)(FC_filename example_self @ ''.download'' := None,
                                   FC_filename example_self \<mapsto> File 7),
               Inr (Some (FC_filename example_self)))"
    using example_absent
    by (simp add: move_def rename_def isdir_def isfile_def exists_def Let_def product_filename_plain)
  have tr: "trace fresh_state = []" by (simp add: fresh_state_def)
  show ?thesis
    unfolding download_file_after_makedirs[OF example_absent(1) example_makedirs]
    by (simp add: example_tools_def Let_def exists_def product_filename_plain shutil_move_def mv
          fetched_state_def tr)
qed

lemma fetched_state_simps:
  "this fresh_state = example_self"
  "\<not> exists (files fresh_state) (FC_filename example_self)"
  "raster_open example_tools (stat (files fetched_state) (FC_filename example_self)) g m = Inr example_raw"
  by (simp_all add: example_absent)
     (simp_all add: fresh_state_def fetched_state_def product_filename_plain example_tools_def)

lemma slash_target_run:
  "download_file absent_tools FC_URL ''/w/d/sub/'' fresh_state =
     (fresh_state\<lparr>files := (files fresh_state)(''/w/d/sub'' \<mapsto> Dir, ''/w/d/sub/.download'' := None),
                  trace := [Makedirs ''/w/d/sub'', System (wget_command ''/w/d/sub/.download'' FC_URL)]\<rparr>,
      Inl (IOError (''unable to download URL: '' @ FC_URL)))"
proof -
  have absent: "\<not> exists (files fresh_state) ''/w/d/sub/''"
    by (simp add: fs_eval fresh_state_def)
  have dir: "dirname ''/w/d/sub/'' = ''/w/d/sub''"
    by (simp add: fs_eval)
  have mk: "makedirs (dirname ''/w/d/sub/'') (files fresh_state)
              = ((files fresh_state)(''/w/d/sub'' \<mapsto> Dir), Inr ())"
    unfolding dir by (subst makedirs.simps) (simp add: fs_eval fresh_state_def)
  show ?thesis
    unfolding download_file_after_makedirs[OF absent mk] dir
    by (simp add: absent_tools_def fresh_state_def Let_def) (simp add: fs_eval)
qed

section \<open>The value transform\<close>

text \<open>
  Claim C1. For both accessors, \<open>FC\<close> and \<open>WP\<close>: when the local file is there, or is absent
  and fetched, and the raster library opens it, the accessor returns a raster; wherever
  the raster that was opened holds the sentinel 255, the raster that is returned holds
  not-a-number at the same position (the two rasters have the same length), and the
  declared missing-value marker of the returned raster is not-a-number.
\<close>

theorem sentinel_becomes_missing:
  assumes "(accessor = FC \<and> filename = FC_filename (this s) \<and> URL = FC_URL) \<or>
           (accessor = WP \<and> filename = WP_filename (this s) \<and> URL = WP_URL)"
      and "(exists (files s) filename \<and> s1 = s) \<or>
           (\<not> exists (files s) filename \<and> download_file T URL filename s = (s1, Inr p))"
      and "raster_open T (stat (files s1) filename) geom
             (case r of None \<Rightarrow> resampling (this s) | Some m \<Rightarrow> m) = Inr raw"
      and "i < length (array raw)"
      and "array raw ! i = Num 255"
  shows "\<exists>img. accessor T geom r s =
                 (s1\<lparr>trace := trace s1 @ [Open filename geom
                             (case r of None \<Rightarrow> resampling (this s) | Some m \<Rightarrow> m)]\<rparr>,
                  Inr img)
               \<and> length (array img) = length (array raw)
               \<and> array img ! i = NaN
               \<and> nodata img = Some NaN"
  using accessor_returns[OF assms(1,2,3)] assms(4,5)
  by (simp add: spec_transform_nth)

text \<open>On the small instance, where the first value is the sentinel: \<open>FC\<close> and \<open>WP\<close> with
  their files in place, and \<open>FC\<close> fetching its file.\<close>

theorem sentinel_becomes_missing_witness:
  "array example_raw ! 0 = Num 255
   \<and> (\<exists>img. FC example_tools None None library_state =
               (library_state\<lparr>trace := [Open (FC_filename example_self) None ''cubic'']\<rparr>, Inr img)
             \<and> length (array img) = length (array example_raw)
             \<and> array img ! 0 = NaN \<and> nodata img = Some NaN)
   \<and> (\<exists>img. WP example_tools None None library_state =
               (library_state\<lparr>trace := [Open (WP_filename example_self) None ''cubic'']\<rparr>, Inr img)
             \<and> length (array img) = length (array example_raw)
             \<and> array img ! 0 = NaN \<and> nodata img = Some NaN)
   \<and> (\<exists>img. FC example_tools None None fresh_state =
               (fetched_state\<lparr>trace := trace fetched_state
                                  @ [Open (FC_filename example_self) None ''cubic'']\<rparr>, Inr img)
             \<and> array img ! 0 = NaN \<and> nodata img = Some NaN)"
proof -
  have raw: "0 < length (array example_raw)" "array example_raw ! 0 = Num 255"
    by (simp_all add: example_raw_def)
  have cached: "(\<exists>img. FC example_tools None None library_state =
               (library_state\<lparr>trace := [Open (FC_filename example_self) None ''cubic'']\<rparr>, Inr img)
             \<and> length (array img) = length (array example_raw)
             \<and> array img ! 0 = NaN \<and> nodata img = Some NaN)
   \<and> (\<exists>img. WP example_tools None None library_state =
               (library_state\<lparr>trace := [Open (WP_filename example_self) None ''cubic'']\<rparr>, Inr img)
             \<and> length (array img) = length (array example_raw)
             \<and> array img ! 0 = NaN \<and> nodata img = Some NaN)"
    using sentinel_becomes_missing[of FC "FC_filename example_self" library_state FC_URL library_state
            example_tools "[]" None None example_raw 0]
          sentinel_becomes_missing[of WP "WP_filename example_self" library_state WP_URL library_state
            example_tools "[]" None None example_raw 0]
          raw
    by (simp add: library_state_simps)
  have fetched: "\<exists>img. FC example_tools None None fresh_state =
               (fetched_state\<lparr>trace := trace fetched_state
                                  @ [Open (FC_filename example_self) None ''cubic'']\<rparr>, Inr img)
             \<and> array img ! 0 = NaN \<and> nodata img = Some NaN"
    using sentinel_becomes_missing[of FC "FC_filename example_self" fresh_state FC_URL fetched_state
            example_tools "FC_filename example_self" None None example_raw 0]
          raw
    by (auto simp: fetched_state_simps example_fetch)
  from raw(2) cached fetched show ?thesis by blast
qed

section \<open>The fetcher\<close>

text \<open>
  Claim C2, as stated, fails. The target \<open>/w/d/sub/\<close> is absent; \<open>download_file\<close> makes
  its directory name \<open>/w/d/sub\<close>, which is the directory the target names; the tool is
  run and leaves nothing at the temporary path; the I/O error is raised; and the target
  is there afterwards, so that the next call returns it as a file already downloaded.
\<close>

theorem no_output_raises_counterexample:
  "\<not> exists (files fresh_state) ''/w/d/sub/''
   \<and> snd (download_file absent_tools FC_URL ''/w/d/sub/'' fresh_state)
       = Inl (IOError (''unable to download URL: '' @ FC_URL))
   \<and> transfers (trace (fst (download_file absent_tools FC_URL ''/w/d/sub/'' fresh_state)))
       = [wget_command ''/w/d/sub/.download'' FC_URL]
   \<and> \<not> exists (files (fst (download_file absent_tools FC_URL ''/w/d/sub/'' fresh_state)))
            ''/w/d/sub/.download''
   \<and> exists (files (fst (download_file absent_tools FC_URL ''/w/d/sub/'' fresh_state))) ''/w/d/sub/''
   \<and> download_file absent_tools FC_URL ''/w/d/sub/''
        (fst (download_file absent_tools FC_URL ''/w/d/sub/'' fresh_state))
       = (fst (download_file absent_tools FC_URL ''/w/d/sub/'' fresh_state), Inr ''/w/d/sub/'')"
proof -
  have absent: "\<not> exists (files fresh_state) ''/w/d/sub/''"
    by (simp add: fs_eval fresh_state_def)
  have after: "exists ((files fresh_state)(''/w/d/sub'' \<mapsto> Dir, ''/w/d/sub/.download'' := None))
                 ''/w/d/sub/''"
    "\<not> exists ((files fresh_state)(''/w/d/sub'' \<mapsto> Dir, ''/w/d/sub/.download'' := None))
                 ''/w/d/sub/.download''"
    by (simp_all add: fs_eval)
  show ?thesis
    unfolding slash_target_run
    using absent after by (simp add: download_file_hit)
qed

text \<open>
  Claim C2, amended. The target is a plain name, so that no other name the fetcher
  touches names the same place, and neither the target nor the URL holds a character the
  shell reads inside double quotes. The target is absent, its directory can be ensured,
  and the transfer tool leaves nothing at the temporary path (the target name followed
  by \<open>.download\<close>). Then \<open>download_file\<close> raises the I/O error whose message ends with the
  URL; afterwards nothing is at the target and nothing at the temporary path, and the
  calls made are the directory creation and the transfer: no move.
\<close>

theorem no_output_raises:
  assumes "plain_name filename"
      and "shell_plain filename" and "shell_plain URL"
      and "\<not> exists (files s) filename"
      and "makedirs (dirname filename) (files s) = (fs1, Inr ())"
      and "wget T URL (fs1 (filename @ ''.download'')) = None"
  shows "\<exists>s'. download_file T URL filename s
                 = (s', Inl (IOError (''unable to download URL: '' @ URL)))
              \<and> \<not> exists (files s') filename
              \<and> \<not> exists (files s') (filename @ ''.download'')
              \<and> trace s' = trace s @ [Makedirs (dirname filename),
                                       System (wget_command (filename @ ''.download'') URL)]
              \<and> this s' = this s"
proof -
  have base: "basename filename \<noteq> []" "basename filename \<noteq> ''.''"
    using plain_name_basename[OF assms(1)] by simp_all
  have plain: "stat fs filename = fs filename"
    "stat fs (filename @ ''.download'') = fs (filename @ ''.download'')" for fs
    by (simp_all add: stat_plain[OF base] stat_download[OF base(1)])
  define s' where "s' = s\<lparr>files := fs1(filename @ ''.download'' := None),
                trace := trace s @ [Makedirs (dirname filename),
                                    System (wget_command (filename @ ''.download'') URL)]\<rparr>"
  have run: "download_file T URL filename s
               = (s', Inl (IOError (''unable to download URL: '' @ URL)))"
    unfolding download_file_after_makedirs[OF assms(4,5)]
    by (simp add: assms(6) Let_def exists_def plain s'_def)
  have "dirname filename \<noteq> filename"
    using base(1) by (rule dirname_neq)
  from makedirs_self[OF assms(5) this] assms(4) have "fs1 filename = None"
    by (simp add: exists_def plain)
  then have absent: "\<not> exists (files s') filename"
    by (simp add: s'_def exists_def plain)
  from run absent show ?thesis
    by (intro exI[of _ s']) (simp add: s'_def exists_def plain)
qed

text \<open>On the small instance, with the tool that leaves nothing.\<close>

theorem no_output_raises_witness:
  "plain_name (FC_filename example_self)
   \<and> shell_plain (FC_filename example_self) \<and> shell_plain FC_URL
   \<and> \<not> exists (files fresh_state) (FC_filename example_self)
   \<and> makedirs (dirname (FC_filename example_self)) (files fresh_state) = (files fresh_state, Inr ())
   \<and> wget absent_tools FC_URL (files fresh_state (FC_filename example_self @ ''.download'')) = None
   \<and> (\<exists>s'. download_file absent_tools FC_URL (FC_filename example_self) fresh_state
                 = (s', Inl (IOError (''unable to download URL: '' @ FC_URL)))
            \<and> \<not> exists (files s') (FC_filename example_self)
            \<and> transfers (trace s') = [wget_command (FC_filename example_self @ ''.download'') FC_URL])"
proof -
  have tool: "wget absent_tools FC_URL (files fresh_state (FC_filename example_self @ ''.download'')) = None"
    by (simp add: absent_tools_def)
  have "trace fresh_state = []" by (simp add: fresh_state_def)
  then show ?thesis
    using no_output_raises[OF example_plain example_absent(1) example_makedirs tool]
      example_plain example_absent(1) example_makedirs tool
    by auto
qed

text \<open>
  Claim C3. When the target exists, \<open>download_file\<close> returns the target name and the
  state it was given: no call is recorded and the file system is the same. Hence an
  accessor whose local file is present leaves the file system as it is and records one
  call, the raster open; the commands handed to the transfer tool are the same after one
  call and after two calls in a row.
\<close>

theorem cache_hit_no_transfer:
  assumes "exists (files s) filename"
  shows "download_file T URL filename s = (s, Inr filename)
         \<and> (filename = FC_filename (this s) \<longrightarrow>
              files (fst (FC T geom r s)) = files s
              \<and> trace (fst (FC T geom r s)) =
                  trace s @ [Open filename geom (case r of None \<Rightarrow> resampling (this s) | Some m \<Rightarrow> m)]
              \<and> transfers (trace (fst (FC T geom r s))) = transfers (trace s)
              \<and> transfers (trace (fst (FC T geom2 r2 (fst (FC T geom r s))))) = transfers (trace s))
         \<and> (filename = WP_filename (this s) \<longrightarrow>
              files (fst (WP T geom r s)) = files s
              \<and> trace (fst (WP T geom r s)) =
                  trace s @ [Open filename geom (case r of None \<Rightarrow> resampling (this s) | Some m \<Rightarrow> m)]
              \<and> transfers (trace (fst (WP T geom r s))) = transfers (trace s)
              \<and> transfers (trace (fst (WP T geom2 r2 (fst (WP T geom r s))))) = transfers (trace s))"
proof -
  have twice_FC: "transfers (trace (fst (FC T geom2 r2 (fst (FC T geom r s))))) = transfers (trace s)"
    if "exists (files s) (FC_filename (this s))"
  proof -
    define s1 where "s1 = fst (FC T geom r s)"
    have "exists (files s1) (FC_filename (this s1))" "transfers (trace s1) = transfers (trace s)"
      using that by (simp_all add: s1_def FC_hit)
    then show ?thesis
      unfolding s1_def[symmetric] by (simp add: FC_hit)
  qed
  have twice_WP: "transfers (trace (fst (WP T geom2 r2 (fst (WP T geom r s))))) = transfers (trace s)"
    if "exists (files s) (WP_filename (this s))"
  proof -
    define s1 where "s1 = fst (WP T geom r s)"
    have "exists (files s1) (WP_filename (this s1))" "transfers (trace s1) = transfers (trace s)"
      using that by (simp_all add: s1_def WP_hit)
    then show ?thesis
      unfolding s1_def[symmetric] by (simp add: WP_hit)
  qed
  show ?thesis
    using assms twice_FC twice_WP by (auto simp: download_file_hit FC_hit WP_hit)
qed

text \<open>On the small instance, with the field-capacity file in place.\<close>

theorem cache_hit_no_transfer_witness:
  "exists (files cached_state) (FC_filename example_self)
   \<and> download_file example_tools FC_URL (FC_filename example_self) cached_state =
       (cached_state, Inr (FC_filename example_self))
   \<and> files (fst (FC example_tools None None cached_state)) = files cached_state
   \<and> trace (fst (FC example_tools None None cached_state)) =
       [Open (FC_filename example_self) None ''cubic'']
   \<and> transfers (trace (fst (FC example_tools None None cached_state))) = []
   \<and> transfers (trace (fst (FC example_tools None None
                               (fst (FC example_tools None None cached_state))))) = []"
  using cache_hit_no_transfer[of cached_state "FC_filename example_self" example_tools FC_URL
          None None None None]
  by (simp add: exists_def product_filename_plain cached_state_def)

text \<open>
  Claim C4. For both products: the local file is absent, its directory can be ensured,
  and the transfer tool leaves a file at the temporary path. Then \<open>download_file\<close>
  returns the local file name, that file is at the local file name afterwards, nothing
  is at the temporary path, and the local file name is the source directory joined with
  the base name of the URL.
\<close>

theorem transfer_output_is_moved_into_place:
  assumes "(URL = FC_URL \<and> filename = FC_filename (this s)) \<or>
           (URL = WP_URL \<and> filename = WP_filename (this s))"
      and "\<not> exists (files s) filename"
      and "makedirs (dirname filename) (files s) = (fs1, Inr ())"
      and "wget T URL (fs1 (filename @ ''.download'')) = Some (File c)"
  shows "\<exists>s'. download_file T URL filename s = (s', Inr filename)
              \<and> files s' filename = Some (File c)
              \<and> \<not> exists (files s') (filename @ ''.download'')
              \<and> filename = join (source_directory (this s)) (basename URL)
              \<and> this s' = this s"
proof -
  have fn: "filename = join (source_directory (this s)) (basename URL)"
    using assms(1) by (auto simp: FC_filename_def WP_filename_def)
  have "basename filename \<noteq> []"
    using assms(1) product_filename_basename by auto
  then have "dirname filename \<noteq> filename" by (rule dirname_neq)
  have plain: "stat fs filename = fs filename" "canon filename = filename"
    "stat fs (filename @ ''.download'') = fs (filename @ ''.download'')"
    "canon (filename @ ''.download'') = filename @ ''.download''" for fs :: "'a filesystem"
    using assms(1) by (auto simp: product_filename_plain)
  from makedirs_self[OF assms(3) \<open>dirname filename \<noteq> filename\<close>] assms(2)
  have fs1: "fs1 filename = None"
    by (simp add: exists_def plain)
  define fs2 where "fs2 = fs1(filename @ ''.download'' \<mapsto> File c)"
  define s2 where "s2 = s\<lparr>files := fs2,
                trace := trace s @ [Makedirs (dirname filename),
                                    System (wget_command (filename @ ''.download'') URL)]\<rparr>"
  have fs2: "fs2 filename = None" "fs2 (filename @ ''.download'') = Some (File c)"
    using fs1 by (simp_all add: fs2_def)
  have mv: "move (filename @ ''.download'') filename fs2
              = ((fs2(filename @ ''.download'' := None))(filename \<mapsto> File c), Inr (Some filename))"
    using fs2 by (simp add: move_def rename_def isdir_def isfile_def Let_def plain)
  define s' where "s' = s2\<lparr>files := (fs2(filename @ ''.download'' := None))(filename \<mapsto> File c),
                          trace := trace s2 @ [Move (filename @ ''.download'') filename]\<rparr>"
  have "download_file T URL filename s = (s', Inr filename)"
    unfolding download_file_after_makedirs[OF assms(2,3)]
    by (simp add: assms(4) Let_def exists_def plain shutil_move_def fs2_def[symmetric] fs2 mv
          s'_def s2_def)
  moreover have "files s' filename = Some (File c)" by (simp add: s'_def)
  moreover have "\<not> exists (files s') (filename @ ''.download'')"
    by (simp add: s'_def exists_def plain)
  moreover have "this s' = this s" by (simp add: s'_def s2_def)
  ultimately show ?thesis using fn by blast
qed

text \<open>On the small instance, with the tool that leaves a file.\<close>

theorem transfer_output_is_moved_into_place_witness:
  "\<not> exists (files fresh_state) (FC_filename example_self)
   \<and> makedirs (dirname (FC_filename example_self)) (files fresh_state) = (files fresh_state, Inr ())
   \<and> wget example_tools FC_URL (files fresh_state (FC_filename example_self @ ''.download''))
       = Some (File 7)
   \<and> (\<exists>s'. download_file example_tools FC_URL (FC_filename example_self) fresh_state
                 = (s', Inr (FC_filename example_self))
            \<and> files s' (FC_filename example_self) = Some (File 7)
            \<and> \<not> exists (files s') (FC_filename example_self @ ''.download''))"
proof -
  have tool: "wget example_tools FC_URL (files fresh_state (FC_filename example_self @ ''.download''))
                = Some (File 7)"
    by (simp add: example_tools_def)
  have prod: "(FC_URL = FC_URL \<and> FC_filename example_self = FC_filename (this fresh_state)) \<or>
           (FC_URL = WP_URL \<and> FC_filename example_self = WP_filename (this fresh_state))"
    by (simp add: fresh_state_def)
  show ?thesis
    using transfer_output_is_moved_into_place[OF prod example_absent(1) example_makedirs tool]
      example_absent(1) example_makedirs tool
    by auto
qed

section \<open>The range of the values\<close>

text \<open>
  Claim C5. For both accessors: when the local file is there, or is absent and fetched,
  and the raster library opens it, the accessor returns a raster in which a raw value
  \<open>v\<close> between 0 and 100 has become the quotient \<open>v / 100\<close> as the division computes it;
  the clamp changes nothing, since that quotient lies between 0 and 1. The division may
  round: this holds for every rounding that is monotone and leaves 0 and 1 as they are.
\<close>

theorem in_range_value_is_quotient:
  assumes "(accessor = FC \<and> filename = FC_filename (this s) \<and> URL = FC_URL) \<or>
           (accessor = WP \<and> filename = WP_filename (this s) \<and> URL = WP_URL)"
      and "(exists (files s) filename \<and> s1 = s) \<or>
           (\<not> exists (files s) filename \<and> download_file T URL filename s = (s1, Inr p))"
      and "raster_open T (stat (files s1) filename) geom
             (case r of None \<Rightarrow> resampling (this s) | Some m \<Rightarrow> m) = Inr raw"
      and "i < length (array raw)"
      and "array raw ! i = Num v"
      and "0 \<le> v" and "v \<le> 100"
      and "mono (fl T)" and "fl T 0 = 0" and "fl T 1 = 1"
  shows "\<exists>img. accessor T geom r s =
                 (s1\<lparr>trace := trace s1 @ [Open filename geom
                             (case r of None \<Rightarrow> resampling (this s) | Some m \<Rightarrow> m)]\<rparr>,
                  Inr img)
               \<and> array img ! i = Num (fl T (v / 100))
               \<and> 0 \<le> fl T (v / 100) \<and> fl T (v / 100) \<le> 1"
proof -
  have "fl T 0 \<le> fl T (v / 100)"
    using monoD[OF \<open>mono (fl T)\<close>, of 0 "v / 100"] \<open>0 \<le> v\<close> by simp
  moreover have "fl T (v / 100) \<le> fl T 1"
    using monoD[OF \<open>mono (fl T)\<close>, of "v / 100" 1] \<open>v \<le> 100\<close> by simp
  ultimately have range: "0 \<le> fl T (v / 100)" "fl T (v / 100) \<le> 1"
    using assms(9,10) by simp_all
  have "v \<noteq> 255" using \<open>v \<le> 100\<close> by simp
  with accessor_returns[OF assms(1,2,3)] assms(4,5) range show ?thesis
    by (simp add: spec_transform_nth)
qed

text \<open>On the small instance, where the second value is 50: \<open>FC\<close> and \<open>WP\<close> with their
  files in place, and \<open>FC\<close> fetching its file.\<close>

theorem in_range_value_is_quotient_witness:
  "array example_raw ! 1 = Num 50
   \<and> mono (fl example_tools) \<and> fl example_tools 0 = 0 \<and> fl example_tools 1 = 1
   \<and> (\<exists>img. FC example_tools None None library_state =
               (library_state\<lparr>trace := [Open (FC_filename example_self) None ''cubic'']\<rparr>, Inr img)
             \<and> array img ! 1 = Num (50 / 100))
   \<and> (\<exists>img. WP example_tools None None library_state =
               (library_state\<lparr>trace := [Open (WP_filename example_self) None ''cubic'']\<rparr>, Inr img)
             \<and> array img ! 1 = Num (50 / 100))
   \<and> (\<exists>img. FC example_tools None None fresh_state =
               (fetched_state\<lparr>trace := trace fetched_state
                                  @ [Open (FC_filename example_self) None ''cubic'']\<rparr>, Inr img)
             \<and> array img ! 1 = Num (50 / 100))"
proof -
  have raw: "1 < length (array example_raw)" "array example_raw ! 1 = Num 50"
    by (simp_all add: example_raw_def)
  have fl: "mono (fl example_tools)" "fl example_tools 0 = 0" "fl example_tools 1 = 1"
    by (simp_all add: example_tools_def mono_def)
  have id: "fl example_tools (50 / 100) = 50 / 100"
    by (simp add: example_tools_def)
  have cached: "(\<exists>img. FC example_tools None None library_state =
               (library_state\<lparr>trace := [Open (FC_filename example_self) None ''cubic'']\<rparr>, Inr img)
             \<and> array img ! 1 = Num (50 / 100))
   \<and> (\<exists>img. WP example_tools None None library_state =
               (library_state\<lparr>trace := [Open (WP_filename example_self) None ''cubic'']\<rparr>, Inr img)
             \<and> array img ! 1 = Num (50 / 100))"
    using in_range_value_is_quotient[of FC "FC_filename example_self" library_state FC_URL
            library_state example_tools "[]" None None example_raw 1 50]
          in_range_value_is_quotient[of WP "WP_filename example_self" library_state WP_URL
            library_state example_tools "[]" None None example_raw 1 50]
          raw fl
    by (simp add: library_state_simps) (auto simp: example_tools_def)
  have fetched: "\<exists>img. FC example_tools None None fresh_state =
               (fetched_state\<lparr>trace := trace fetched_state
                                  @ [Open (FC_filename example_self) None ''cubic'']\<rparr>, Inr img)
             \<and> array img ! 1 = Num (50 / 100)"
    using in_range_value_is_quotient[of FC "FC_filename example_self" fresh_state FC_URL
            fetched_state example_tools "FC_filename example_self" None None example_raw 1 50]
          raw fl
    by (simp add: fetched_state_simps example_fetch) (auto simp: example_tools_def)
  from raw(2) fl cached fetched show ?thesis by blast
qed

text \<open>
  Claim C6. For both accessors: when the local file is there, or is absent and fetched,
  and the raster library opens it, the accessor returns a raster in which a raw value
  above 100 and below 255 has become exactly 1, not its quotient by 100.
\<close>

theorem above_range_value_is_one:
  assumes "(accessor = FC \<and> filename = FC_filename (this s) \<and> URL = FC_URL) \<or>
           (accessor = WP \<and> filename = WP_filename (this s) \<and> URL = WP_URL)"
      and "(exists (files s) filename \<and> s1 = s) \<or>
           (\<not> exists (files s) filename \<and> download_file T URL filename s = (s1, Inr p))"
      and "raster_open T (stat (files s1) filename) geom
             (case r of None \<Rightarrow> resampling (this s) | Some m \<Rightarrow> m) = Inr raw"
      and "i < length (array raw)"
      and "array raw ! i = Num v"
      and "100 < v" and "v < 255"
      and "mono (fl T)" and "fl T 1 = 1"
  shows "\<exists>img. accessor T geom r s =
                 (s1\<lparr>trace := trace s1 @ [Open filename geom
                             (case r of None \<Rightarrow> resampling (this s) | Some m \<Rightarrow> m)]\<rparr>,
                  Inr img)
               \<and> array img ! i = Num 1"
proof -
  have "fl T 1 \<le> fl T (v / 100)"
    using monoD[OF \<open>mono (fl T)\<close>, of 1 "v / 100"] \<open>100 < v\<close> by simp
  then have "1 \<le> fl T (v / 100)"
    using assms(9) by simp
  moreover have "v \<noteq> 255" using \<open>v < 255\<close> by simp
  ultimately show ?thesis
    using accessor_returns[OF assms(1,2,3)] assms(4,5) by (simp add: spec_transform_nth)
qed

text \<open>On the small instance, where the third value is 150: \<open>FC\<close> and \<open>WP\<close> with their
  files in place, and \<open>FC\<close> fetching its file.\<close>

theorem above_range_value_is_one_witness:
  "array example_raw ! 2 = Num 150
   \<and> mono (fl example_tools) \<and> fl example_tools 1 = 1
   \<and> (\<exists>img. FC example_tools None None library_state =
               (library_state\<lparr>trace := [Open (FC_filename example_self) None ''cubic'']\<rparr>, Inr img)
             \<and> array img ! 2 = Num 1)
   \<and> (\<exists>img. WP example_tools None None library_state =
               (library_state\<lparr>trace := [Open (WP_filename example_self) None ''cubic'']\<rparr>, Inr img)
             \<and> array img ! 2 = Num 1)
   \<and> (\<exists>img. FC example_tools None None fresh_state =
               (fetched_state\<lparr>trace := trace fetched_state
                                  @ [Open (FC_filename example_self) None ''cubic'']\<rparr>, Inr img)
             \<and> array img ! 2 = Num 1)"
proof -
  have raw: "2 < length (array example_raw)" "array example_raw ! 2 = Num 150"
    by (simp_all add: example_raw_def)
  have fl: "mono (fl example_tools)" "fl example_tools 1 = 1"
    by (simp_all add: example_tools_def mono_def)
  have cached: "(\<exists>img. FC example_tools None None library_state =
               (library_state\<lparr>trace := [Open (FC_filename example_self) None ''cubic'']\<rparr>, Inr img)
             \<and> array img ! 2 = Num 1)
   \<and> (\<exists>img. WP example_tools None None library_state =
               (library_state\<lparr>trace := [Open (WP_filename example_self) None ''cubic'']\<rparr>, Inr img)
             \<and> array img ! 2 = Num 1)"
    using above_range_value_is_one[of FC "FC_filename example_self" library_state FC_URL
            library_state example_tools "[]" None None example_raw 2 150]
          above_range_value_is_one[of WP "WP_filename example_self" library_state WP_URL
            library_state example_tools "[]" None None example_raw 2 150]
          raw fl
    by (simp add: library_state_simps)
  have fetched: "\<exists>img. FC example_tools None None fresh_state =
               (fetched_state\<lparr>trace := trace fetched_state
                                  @ [Open (FC_filename example_self) None ''cubic'']\<rparr>, Inr img)
             \<and> array img ! 2 = Num 1"
    using above_range_value_is_one[of FC "FC_filename example_self" fresh_state FC_URL
            fetched_state example_tools "FC_filename example_self" None None example_raw 2 150]
          raw fl
    by (simp add: fetched_state_simps example_fetch)
  from raw(2) fl cached fetched show ?thesis by blast
qed

section \<open>The resampling method\<close>

text \<open>
  Claim C7. For both accessors: the instance is the same after the call, its resampling
  attribute included. The call of the raster open operation that the accessor makes has
  the local file name, the geometry, and the resampling argument when one is given, the
  attribute of the instance when none is given. The accessor makes no such call only when
  the file was absent and fetching it raised.
\<close>

theorem resampling_argument_reaches_open:
  assumes "(accessor = FC \<and> filename = FC_filename (this s) \<and> URL = FC_URL) \<or>
           (accessor = WP \<and> filename = WP_filename (this s) \<and> URL = WP_URL)"
      and "accessor T geom r s = (s', res)"
  shows "this s' = this s
         \<and> resampling (this s') = resampling (this s)
         \<and> (opens (trace s') =
               opens (trace s) @ [(filename, geom, case r of None \<Rightarrow> resampling (this s) | Some m \<Rightarrow> m)]
             \<or> (opens (trace s') = opens (trace s)
                 \<and> \<not> exists (files s) filename
                 \<and> (\<exists>e. download_file T URL filename s = (s', Inl e) \<and> res = Inl e)))"
proof -
  have pg: "product_get T URL geom r s = (s', res)"
    and fn: "filename = join (source_directory (this s)) (basename URL)"
    using assms by (auto simp: FC_product_get WP_product_get FC_filename_def WP_filename_def)
  from product_get_this[OF pg] product_get_opens[OF pg] fn show ?thesis
    by simp
qed

text \<open>On the small instance: the argument is nearest, the attribute is cubic.\<close>

theorem resampling_argument_reaches_open_witness:
  "FC example_tools None (Some ''nearest'') cached_state =
     (cached_state\<lparr>trace := [Open (FC_filename example_self) None ''nearest'']\<rparr>,
      Inr (spec_transform (\<lambda>x. x) example_raw))
   \<and> resampling (this cached_state) = ''cubic''
   \<and> resampling (this (cached_state\<lparr>trace := [Open (FC_filename example_self) None ''nearest'']\<rparr>)) = ''cubic''
   \<and> opens (trace (cached_state\<lparr>trace := [Open (FC_filename example_self) None ''nearest'']\<rparr>)) =
       opens (trace cached_state) @ [(FC_filename example_self, None, ''nearest'')]"
  using resampling_argument_reaches_open[of FC "FC_filename example_self" cached_state FC_URL
          example_tools None "Some ''nearest''"
          "cached_state\<lparr>trace := [Open (FC_filename example_self) None ''nearest'']\<rparr>"
          "Inr (spec_transform (\<lambda>x. x) example_raw)"]
  by (simp add: example_FC) (simp add: cached_state_def)

section \<open>The directories\<close>

text \<open>
  Claim C8. Constructed with the working directory \<open>/tmp/wd\<close> and no source directory, in
  any process environment, the instance has the source directory
  \<open>/tmp/wd/SoilGrids_download\<close>, and its field-capacity file name is that directory, a
  slash and the last segment of the URL. For every instance the local file name of a
  product is the source directory joined with the base name of the URL.
\<close>

theorem working_directory_example:
  "source_directory (SoilGrids_init E (Some ''/tmp/wd'') None DEFAULT_RESAMPLING)
     = ''/tmp/wd/SoilGrids_download''
   \<and> FC_filename (SoilGrids_init E (Some ''/tmp/wd'') None DEFAULT_RESAMPLING)
     = ''/tmp/wd/SoilGrids_download/sol_watercontent.33kPa_usda.4b1c_m_250m_b0..0cm_1950..2017_v0.1.tif''
   \<and> FC_filename self = join (source_directory self) (basename FC_URL)
   \<and> WP_filename self = join (source_directory self) (basename WP_URL)"
proof -
  have sd: "source_directory (SoilGrids_init E (Some ''/tmp/wd'') None DEFAULT_RESAMPLING)
     = ''/tmp/wd/SoilGrids_download''"
    by (simp add: SoilGrids_init_def DEFAULT_DOWNLOAD_DIRECTORY_def path_eval)
  have "FC_filename (SoilGrids_init E (Some ''/tmp/wd'') None DEFAULT_RESAMPLING)
     = ''/tmp/wd/SoilGrids_download/sol_watercontent.33kPa_usda.4b1c_m_250m_b0..0cm_1950..2017_v0.1.tif''"
    unfolding FC_filename_def sd basename_FC_URL
    by (simp add: join_def isabs_def sep_def)
  with sd show ?thesis
    by (simp add: FC_filename_def WP_filename_def)
qed

section \<open>One routine for both products\<close>

text \<open>
  Claim C9. \<open>FC\<close> and \<open>WP\<close> are the routine \<open>product_get\<close> of the specification at their
  two URLs: same state afterwards, same result, for every geometry, resampling argument,
  state and behaviour of the tools; the local file name is the source directory joined
  with the base name of the URL.
\<close>

theorem accessors_are_one_routine:
  "FC T geom r s = product_get T FC_URL geom r s
   \<and> WP T geom r s = product_get T WP_URL geom r s
   \<and> FC_filename (this s) = join (source_directory (this s)) (basename FC_URL)
   \<and> WP_filename (this s) = join (source_directory (this s)) (basename WP_URL)"
  by (simp add: FC_product_get WP_product_get FC_filename_def WP_filename_def)

section \<open>Absolute directories\<close>

text \<open>
  Claim C10. The current directory of the process is absolute, as the operating system
  gives it. Then for every two strings given as working and source directory, the
  attributes are \<open>abspath\<close> of \<open>expanduser\<close> of the arguments; for every choice of
  arguments, given or left out, both attributes are absolute and \<open>expanduser\<close> leaves them
  as they are. \<open>download_file\<close>, \<open>FC\<close> and \<open>WP\<close> return the instance they were given.
\<close>

theorem directories_are_absolute:
  assumes "isabs (cwd E)"
  shows "working_directory (SoilGrids_init E (Some wd) (Some sd) m) = abspath E (expanduser E wd)
         \<and> source_directory (SoilGrids_init E (Some wd) (Some sd) m) = abspath E (expanduser E sd)
         \<and> isabs (working_directory (SoilGrids_init E wd_arg sd_arg m))
         \<and> isabs (source_directory (SoilGrids_init E wd_arg sd_arg m))
         \<and> expanduser E (working_directory (SoilGrids_init E wd_arg sd_arg m))
             = working_directory (SoilGrids_init E wd_arg sd_arg m)
         \<and> expanduser E (source_directory (SoilGrids_init E wd_arg sd_arg m))
             = source_directory (SoilGrids_init E wd_arg sd_arg m)
         \<and> this (fst (download_file T URL filename s)) = this s
         \<and> this (fst (FC T geom r s)) = this s
         \<and> this (fst (WP T geom r s)) = this s"
proof -
  have abs: "isabs (working_directory (SoilGrids_init E wd_arg sd_arg m))"
    "isabs (source_directory (SoilGrids_init E wd_arg sd_arg m))"
    using assms by (simp_all add: SoilGrids_init_def Let_def isabs_abspath)
  have "this (fst (download_file T URL filename s)) = this s"
    using download_file_this[of T URL filename s] by (cases "download_file T URL filename s") simp
  moreover have "this (fst (FC T geom r s)) = this s"
    using product_get_this[of T FC_URL geom r s]
    by (cases "FC T geom r s") (simp add: FC_product_get)
  moreover have "this (fst (WP T geom r s)) = this s"
    using product_get_this[of T WP_URL geom r s]
    by (cases "WP T geom r s") (simp add: WP_product_get)
  ultimately show ?thesis
    using abs by (simp add: expanduser_isabs) (simp add: SoilGrids_init_def)
qed

text \<open>On the small instance: a path under the home directory and a relative path.\<close>

theorem directories_are_absolute_witness:
  "isabs (cwd example_env)
   \<and> working_directory (SoilGrids_init example_env (Some ''~/data'') (Some ''cache'') ''cubic'')
       = ''/home/u/data''
   \<and> source_directory (SoilGrids_init example_env (Some ''~/data'') (Some ''cache'') ''cubic'')
       = ''/home/u/cache''
   \<and> isabs (working_directory (SoilGrids_init example_env (Some ''~/data'') (Some ''cache'') ''cubic''))
   \<and> isabs (source_directory (SoilGrids_init example_env (Some ''~/data'') (Some ''cache'') ''cubic''))
   \<and> this (fst (FC example_tools None None cached_state)) = this cached_state"
proof -
  have c: "isabs (cwd example_env)" by (simp add: example_env_def isabs_def sep_def)
  have "abspath example_env (expanduser example_env ''~/data'') = ''/home/u/data''"
    by (simp add: example_env_def path_eval)
  moreover have "abspath example_env (expanduser example_env ''cache'') = ''/home/u/cache''"
    by (simp add: example_env_def path_eval)
  ultimately show ?thesis
    using directories_are_absolute[OF c, of "''~/data''" "''cache''" "''cubic''"
            "Some ''~/data''" "Some ''cache''" example_tools FC_URL "FC_filename example_self"
            cached_state None None] c
    by (simp add: isabs_def sep_def)
qed

end
